theory Spec2Isabelle
  imports Complex_Main
begin

section \<open>Python values and errors\<close>

text \<open>
  Exceptions of the Python source are values: every function that can raise returns
  \<open>py_error + 'a\<close>, with \<open>Inl\<close> carrying the exception class.
\<close>

datatype py_error = ValueError | KeyError | IndexError | TypeError | SyntaxError

text \<open>
  A Python \<open>float\<close> of the noise model is modelled as an exact real number, and
  \<open>round(x, n)\<close> as rounding to \<open>n\<close> decimals with ties going to the even
  neighbour, which is what Python does on the exact value of its argument.
\<close>

definition round_half_even :: "real \<Rightarrow> int" where
  "round_half_even y =
     (let f = \<lfloor>y\<rfloor>; d = y - of_int f
      in if d < 1 / 2 then f
         else if 1 / 2 < d then f + 1
         else if even f then f else f + 1)"

definition py_round :: "real \<Rightarrow> nat \<Rightarrow> real" where
  "py_round x n = of_int (round_half_even (x * 10 ^ n)) / 10 ^ n"

text \<open>
  A \<open>dict\<close> keeps its insertion order, so it is an association list; \<open>d[k]\<close>
  raises \<open>KeyError\<close> on a missing key.
\<close>

type_synonym ('k, 'v) dict = "('k \<times> 'v) list"

definition dict_get :: "('k, 'v) dict \<Rightarrow> 'k \<Rightarrow> py_error + 'v" where
  "dict_get d k = (case map_of d k of None \<Rightarrow> Inl KeyError | Some v \<Rightarrow> Inr v)"

definition dict_keys :: "('k, 'v) dict \<Rightarrow> 'k list" where
  "dict_keys d = map fst d"

definition dict_values :: "('k, 'v) dict \<Rightarrow> 'v list" where
  "dict_values d = map snd d"

section \<open>Noise exposures (gp_server/app/noise_exposures.py)\<close>

type_synonym noises = "(int, real) dict"
type_synonym db_costs = "(int, real) dict"

definition calc_db_cost_v2 :: "int \<Rightarrow> real" where
  "calc_db_cost_v2 db =
     (if db \<le> 44 then 0
      else py_round ((of_int db - 40) / (75 - 40)) 3)"

definition calc_db_cost_v3 :: "int \<Rightarrow> real" where
  "calc_db_cost_v3 db =
     (if db \<le> 44 then 0
      else py_round ((10 powr ((0.3 * of_int db) / 10)) / 100) 3)"

definition dbs :: "int list" where
  "dbs = [40..79]"

definition get_db_costs :: "int \<Rightarrow> py_error + db_costs" where
  "get_db_costs version =
     (if version = 2 then Inr (map (\<lambda>db. (db, calc_db_cost_v2 db)) dbs)
      else if version = 3 then Inr (map (\<lambda>db. (db, calc_db_cost_v3 db)) dbs)
      else Inl ValueError)"

text \<open>
  The list comprehension \<open>[db_costs[db] * length for db, length in noises.items()]\<close>:
  the first missing key raises.
\<close>

fun db_distance_costs :: "db_costs \<Rightarrow> noises \<Rightarrow> py_error + real list" where
  "db_distance_costs db_costs [] = Inr []"
| "db_distance_costs db_costs ((db, len) # rest) =
     (case dict_get db_costs db of
        Inl e \<Rightarrow> Inl e
      | Inr c \<Rightarrow>
          (case db_distance_costs db_costs rest of
             Inl e \<Rightarrow> Inl e
           | Inr cs \<Rightarrow> Inr (c * len # cs)))"

text \<open>\<open>not noises\<close> holds of \<open>None\<close> and of the empty dict.\<close>

definition not_noises :: "noises option \<Rightarrow> bool" where
  "not_noises noises = (case noises of None \<Rightarrow> True | Some ns \<Rightarrow> ns = [])"

definition get_noise_cost_coeff :: "noises option \<Rightarrow> db_costs \<Rightarrow> py_error + real" where
  "get_noise_cost_coeff noises db_costs =
     (if not_noises noises then Inr 0
      else
        (case db_distance_costs db_costs (the noises) of
           Inl e \<Rightarrow> Inl e
         | Inr cs \<Rightarrow>
             (let db_distance_cost = sum_list cs;
                  total_length = sum_list (dict_values (the noises))
              in if total_length \<noteq> 0
                 then Inr (py_round (db_distance_cost / total_length) 3)
                 else Inr 0)))"

definition get_noise_range :: "real \<Rightarrow> int" where
  "get_noise_range db =
     (if db \<ge> 70 then 70
      else if db \<ge> 65 then 65
      else if db \<ge> 60 then 60
      else if db \<ge> 55 then 55
      else if db \<ge> 50 then 50
      else 40)"


definition get_noise_exposure_index :: "noises option \<Rightarrow> db_costs \<Rightarrow> py_error + real" where
  "get_noise_exposure_index noises db_costs =
     (if not_noises noises then Inr 0
      else
        (case db_distance_costs db_costs (the noises) of
           Inl e \<Rightarrow> Inl e
         | Inr cs \<Rightarrow> Inr (py_round (sum_list cs) 2)))"

text \<open>
  \<open>bike_time_cost if bike_time_cost else length\<close>: \<open>None\<close> and \<open>0.0\<close> are both
  falsy.
\<close>

definition base_cost_of :: "real option \<Rightarrow> real \<Rightarrow> real" where
  "base_cost_of bike_time_cost len =
     (case bike_time_cost of
        None \<Rightarrow> len
      | Some c \<Rightarrow> if c \<noteq> 0 then c else len)"

definition get_noise_adjusted_edge_cost ::
  "real \<Rightarrow> db_costs \<Rightarrow> noises option \<Rightarrow> real \<Rightarrow> real option \<Rightarrow> py_error + real" where
  "get_noise_adjusted_edge_cost sensitivity db_costs noises len bike_time_cost =
     (if noises \<noteq> None \<and> \<bar>len - sum_list (dict_values (the noises))\<bar> > 0.5
      then Inl ValueError
      else
        (let base_cost = base_cost_of bike_time_cost len
         in if noises = None
            then Inr (py_round (base_cost + base_cost * 100 * sensitivity) 2)
            else
              (case get_noise_cost_coeff noises db_costs of
                 Inl e \<Rightarrow> Inl e
               | Inr noise_cost_coeff \<Rightarrow>
                   Inr (py_round (base_cost + base_cost * noise_cost_coeff * sensitivity) 2))))"


section \<open>Graph input and output (common/igraph.py)\<close>

subsection \<open>Values, and the library functions the module calls\<close>

text \<open>
  Attribute values are Python objects. A geometry is identified with its canonical
  well-known text. Values are immutable here: the module never updates a value in
  place, it only replaces whole attribute columns.
\<close>

datatype pyval =
    VNone
  | VBool bool
  | VInt int
  | VFloat real
  | VStr string
  | VTuple "pyval list"
  | VDict "(pyval \<times> pyval) list"
  | VGeom string

text \<open>
  The functions of the Python runtime and of the libraries that the module calls and
  that are not part of this repository are parameters of the model: \<open>str\<close> and
  \<open>float\<close> on floats, \<open>repr\<close> on strings (the quoting),
  \<open>ast.literal_eval\<close> and \<open>shapely.wkt.loads\<close>.
\<close>

record builtins =
  float_str :: "real \<Rightarrow> string"
  float_of_str :: "string \<Rightarrow> py_error + real"
  str_repr :: "string \<Rightarrow> string"
  literal_eval :: "string \<Rightarrow> py_error + pyval"
  wkt_loads :: "string \<Rightarrow> py_error + pyval"

subsection \<open>\<open>str\<close> and \<open>int\<close> on integers\<close>

definition digit_char :: "nat \<Rightarrow> char" where
  "digit_char d = char_of (48 + d)"

function str_nat :: "nat \<Rightarrow> string" where
  "str_nat n = (if n < 10 then [digit_char n] else str_nat (n div 10) @ [digit_char (n mod 10)])"
  by pat_completeness auto
termination
  by (relation "measure id") auto

declare str_nat.simps [simp del]

definition str_int :: "int \<Rightarrow> string" where
  "str_int i = (if i < 0 then CHR ''-'' # str_nat (nat (- i)) else str_nat (nat i))"

definition is_digit :: "char \<Rightarrow> bool" where
  "is_digit c \<longleftrightarrow> 48 \<le> (of_char c :: nat) \<and> (of_char c :: nat) \<le> 57"

definition is_space :: "char \<Rightarrow> bool" where
  "is_space c \<longleftrightarrow> (of_char c :: nat) \<in> {9, 10, 11, 12, 13, 28, 29, 30, 31, 32}"

definition strip :: "string \<Rightarrow> string" where
  "strip s = rev (dropWhile is_space (rev (dropWhile is_space s)))"

definition digits_to_nat :: "string \<Rightarrow> nat" where
  "digits_to_nat cs = foldl (\<lambda>acc c. acc * 10 + (of_char c - 48)) 0 cs"

text \<open>
  The digits of an integer literal may be grouped by single underscores
  (\<open>1_000\<close>); an underscore is never first, last or doubled.
\<close>

fun valid_digits :: "string \<Rightarrow> bool" where
  "valid_digits [] = False"
| "valid_digits [c] = is_digit c"
| "valid_digits (c # d # cs) =
     (is_digit c \<and>
      (if d = CHR ''_'' then valid_digits cs else valid_digits (d # cs)))"

definition nat_of_str :: "string \<Rightarrow> py_error + nat" where
  "nat_of_str cs =
     (if valid_digits cs then Inr (digits_to_nat (filter (\<lambda>c. c \<noteq> CHR ''_'') cs))
      else Inl ValueError)"

text \<open>
  \<open>int(s)\<close> on a string: surrounding whitespace is dropped, one sign is allowed, and
  the rest must be decimal digits. Strings are sequences of bytes here, so the
  non-ASCII digits and spaces that Python also accepts are not in the model.
\<close>

definition int_of_str :: "string \<Rightarrow> py_error + int" where
  "int_of_str s =
     (case strip s of
        [] \<Rightarrow> Inl ValueError
      | c # cs \<Rightarrow>
          if c = CHR ''-'' then
            (case nat_of_str cs of Inl e \<Rightarrow> Inl e | Inr n \<Rightarrow> Inr (- int n))
          else if c = CHR ''+'' then
            (case nat_of_str cs of Inl e \<Rightarrow> Inl e | Inr n \<Rightarrow> Inr (int n))
          else
            (case nat_of_str (c # cs) of Inl e \<Rightarrow> Inl e | Inr n \<Rightarrow> Inr (int n)))"

subsection \<open>\<open>str\<close>, \<open>len\<close>, \<open>int\<close> and \<open>float\<close> on values\<close>

text \<open>
  \<open>repr\<close> of a value, which is what \<open>str\<close> of a tuple or dict shows of its items.
  A geometry prints as its well-known text.
\<close>

fun join_str :: "string \<Rightarrow> string list \<Rightarrow> string" where
  "join_str sep [] = []"
| "join_str sep [x] = x"
| "join_str sep (x # y # ys) = x @ sep @ join_str sep (y # ys)"

fun py_repr :: "builtins \<Rightarrow> pyval \<Rightarrow> string" where
  "py_repr B VNone = ''None''"
| "py_repr B (VBool b) = (if b then ''True'' else ''False'')"
| "py_repr B (VInt i) = str_int i"
| "py_repr B (VFloat x) = float_str B x"
| "py_repr B (VStr s) = str_repr B s"
| "py_repr B (VTuple xs) =
     ''('' @ join_str '', '' (map (py_repr B) xs) @ (if length xs = 1 then '','' else [])
       @ '')''"
| "py_repr B (VDict kvs) =
     ''{'' @ join_str '', '' (map (\<lambda>kv. py_repr B (fst kv) @ '': '' @ py_repr B (snd kv)) kvs)
       @ ''}''"
| "py_repr B (VGeom w) = w"

definition py_str :: "builtins \<Rightarrow> pyval \<Rightarrow> string" where
  "py_str B v = (case v of VStr s \<Rightarrow> s | _ \<Rightarrow> py_repr B v)"

definition py_len :: "pyval \<Rightarrow> py_error + nat" where
  "py_len v =
     (case v of
        VStr s \<Rightarrow> Inr (length s)
      | VTuple xs \<Rightarrow> Inr (length xs)
      | VDict kvs \<Rightarrow> Inr (length kvs)
      | _ \<Rightarrow> Inl TypeError)"

text \<open>\<open>int(x)\<close> of a float drops the fraction, towards zero.\<close>

definition py_int :: "pyval \<Rightarrow> py_error + pyval" where
  "py_int v =
     (case v of
        VStr s \<Rightarrow> (case int_of_str s of Inl e \<Rightarrow> Inl e | Inr i \<Rightarrow> Inr (VInt i))
      | VInt i \<Rightarrow> Inr (VInt i)
      | VBool b \<Rightarrow> Inr (VInt (if b then 1 else 0))
      | VFloat x \<Rightarrow> Inr (VInt (if x < 0 then \<lceil>x\<rceil> else \<lfloor>x\<rfloor>))
      | _ \<Rightarrow> Inl TypeError)"

definition py_float :: "builtins \<Rightarrow> pyval \<Rightarrow> py_error + pyval" where
  "py_float B v =
     (case v of
        VStr s \<Rightarrow> (case float_of_str B s of Inl e \<Rightarrow> Inl e | Inr x \<Rightarrow> Inr (VFloat x))
      | VInt i \<Rightarrow> Inr (VFloat (of_int i))
      | VBool b \<Rightarrow> Inr (VFloat (if b then 1 else 0))
      | VFloat x \<Rightarrow> Inr (VFloat x)
      | _ \<Rightarrow> Inl TypeError)"

text \<open>
  \<open>ast.literal_eval\<close> and \<open>wkt.loads\<close> parse strings; any other argument is
  refused.
\<close>

definition py_literal_eval :: "builtins \<Rightarrow> pyval \<Rightarrow> py_error + pyval" where
  "py_literal_eval B v = (case v of VStr s \<Rightarrow> literal_eval B s | _ \<Rightarrow> Inl ValueError)"

definition py_wkt_loads :: "builtins \<Rightarrow> pyval \<Rightarrow> py_error + pyval" where
  "py_wkt_loads B v = (case v of VStr s \<Rightarrow> wkt_loads B s | _ \<Rightarrow> Inl TypeError)"

subsection \<open>The attribute enums and the converters\<close>

datatype Node =
    Node_id_ig | Node_id_otp | Node_name_otp | Node_geometry | Node_geom_wgs
  | Node_traversable_walking | Node_traversable_biking | Node_traffic_light

datatype Edge =
    Edge_id_ig | Edge_id_otp | Edge_id_way | Edge_uv | Edge_name_otp | Edge_geometry
  | Edge_geom_wgs | Edge_length | Edge_bike_time_cost | Edge_bike_safety_cost
  | Edge_edge_class | Edge_street_class | Edge_is_stairs | Edge_is_no_thru_traffic
  | Edge_allows_walking | Edge_allows_biking | Edge_traversable_walking
  | Edge_traversable_biking | Edge_bike_safety_factor | Edge_noises | Edge_noise_source
  | Edge_noise_sources | Edge_aqi | Edge_gvi_gsv | Edge_gvi_low_veg_share
  | Edge_gvi_high_veg_share | Edge_gvi_comb_gsv_veg | Edge_gvi_comb_gsv_high_veg | Edge_gvi

text \<open>The members in definition order, which is the order of iteration over the enum.\<close>

definition Node_members :: "Node list" where
  "Node_members =
     [Node_id_ig, Node_id_otp, Node_name_otp, Node_geometry, Node_geom_wgs,
      Node_traversable_walking, Node_traversable_biking, Node_traffic_light]"

definition Edge_members :: "Edge list" where
  "Edge_members =
     [Edge_id_ig, Edge_id_otp, Edge_id_way, Edge_uv, Edge_name_otp, Edge_geometry,
      Edge_geom_wgs, Edge_length, Edge_bike_time_cost, Edge_bike_safety_cost,
      Edge_edge_class, Edge_street_class, Edge_is_stairs, Edge_is_no_thru_traffic,
      Edge_allows_walking, Edge_allows_biking, Edge_traversable_walking,
      Edge_traversable_biking, Edge_bike_safety_factor, Edge_noises, Edge_noise_source,
      Edge_noise_sources, Edge_aqi, Edge_gvi_gsv, Edge_gvi_low_veg_share,
      Edge_gvi_high_veg_share, Edge_gvi_comb_gsv_veg, Edge_gvi_comb_gsv_high_veg, Edge_gvi]"

fun Node_value :: "Node \<Rightarrow> string" where
  "Node_value Node_id_ig = ''ii''"
| "Node_value Node_id_otp = ''io''"
| "Node_value Node_name_otp = ''no''"
| "Node_value Node_geometry = ''geom''"
| "Node_value Node_geom_wgs = ''geom_wgs''"
| "Node_value Node_traversable_walking = ''b_tw''"
| "Node_value Node_traversable_biking = ''b_tb''"
| "Node_value Node_traffic_light = ''tl''"

fun Edge_value :: "Edge \<Rightarrow> string" where
  "Edge_value Edge_id_ig = ''ii''"
| "Edge_value Edge_id_otp = ''io''"
| "Edge_value Edge_id_way = ''iw''"
| "Edge_value Edge_uv = ''uv''"
| "Edge_value Edge_name_otp = ''no''"
| "Edge_value Edge_geometry = ''geom''"
| "Edge_value Edge_geom_wgs = ''geom_wgs''"
| "Edge_value Edge_length = ''l''"
| "Edge_value Edge_bike_time_cost = ''c_bt''"
| "Edge_value Edge_bike_safety_cost = ''c_bs''"
| "Edge_value Edge_edge_class = ''ec''"
| "Edge_value Edge_street_class = ''sc''"
| "Edge_value Edge_is_stairs = ''b_st''"
| "Edge_value Edge_is_no_thru_traffic = ''b_ntt''"
| "Edge_value Edge_allows_walking = ''b_aw''"
| "Edge_value Edge_allows_biking = ''b_ab''"
| "Edge_value Edge_traversable_walking = ''b_tw''"
| "Edge_value Edge_traversable_biking = ''b_tb''"
| "Edge_value Edge_bike_safety_factor = ''bsf''"
| "Edge_value Edge_noises = ''n''"
| "Edge_value Edge_noise_source = ''ns''"
| "Edge_value Edge_noise_sources = ''nss''"
| "Edge_value Edge_aqi = ''aqi''"
| "Edge_value Edge_gvi_gsv = ''g_gsv''"
| "Edge_value Edge_gvi_low_veg_share = ''g_lv''"
| "Edge_value Edge_gvi_high_veg_share = ''g_hv''"
| "Edge_value Edge_gvi_comb_gsv_veg = ''g_gsv_v''"
| "Edge_value Edge_gvi_comb_gsv_high_veg = ''g_gsv_hv''"
| "Edge_value Edge_gvi = ''g''"

text \<open>
  \<open>Node(attr)\<close> and \<open>Edge(attr)\<close> look a member up by its value and raise
  \<open>ValueError\<close> when there is none.
\<close>

definition Node_of :: "string \<Rightarrow> py_error + Node" where
  "Node_of attr =
     (case find (\<lambda>m. Node_value m = attr) Node_members of
        None \<Rightarrow> Inl ValueError | Some m \<Rightarrow> Inr m)"

definition Edge_of :: "string \<Rightarrow> py_error + Edge" where
  "Edge_of attr =
     (case find (\<lambda>m. Edge_value m = attr) Edge_members of
        None \<Rightarrow> Inl ValueError | Some m \<Rightarrow> Inr m)"

definition as_string :: "builtins \<Rightarrow> pyval \<Rightarrow> string" where
  "as_string B v = (case v of VBool b \<Rightarrow> if b then ''1'' else ''0'' | _ \<Rightarrow> py_str B v)"

definition to_str :: "builtins \<Rightarrow> pyval \<Rightarrow> py_error + pyval" where
  "to_str B v = (if v \<noteq> VStr ''None'' then Inr (VStr (py_str B v)) else Inr VNone)"

definition to_int :: "builtins \<Rightarrow> pyval \<Rightarrow> py_error + pyval" where
  "to_int B v = (if v \<noteq> VStr ''None'' then py_int v else Inr VNone)"

definition to_float :: "builtins \<Rightarrow> pyval \<Rightarrow> py_error + pyval" where
  "to_float B v = (if v \<noteq> VStr ''None'' then py_float B v else Inr VNone)"

definition to_geom :: "builtins \<Rightarrow> pyval \<Rightarrow> py_error + pyval" where
  "to_geom B v = py_wkt_loads B v"

definition to_bool :: "builtins \<Rightarrow> pyval \<Rightarrow> py_error + pyval" where
  "to_bool B v =
     (case py_len v of
        Inl e \<Rightarrow> Inl e
      | Inr n \<Rightarrow> if n = 1 then Inr (VBool (v = VStr ''1'')) else py_literal_eval B v)"

definition to_dict :: "builtins \<Rightarrow> pyval \<Rightarrow> py_error + pyval" where
  "to_dict B v = (if v \<noteq> VStr ''None'' then py_literal_eval B v else Inr VNone)"

definition to_tuple :: "builtins \<Rightarrow> pyval \<Rightarrow> py_error + pyval" where
  "to_tuple B v = (if v \<noteq> VStr ''None'' then py_literal_eval B v else Inr VNone)"

type_synonym converter = "builtins \<Rightarrow> pyval \<Rightarrow> py_error + pyval"

fun value_converter_by_edge_attribute :: "Edge \<Rightarrow> converter" where
  "value_converter_by_edge_attribute Edge_id_ig = to_int"
| "value_converter_by_edge_attribute Edge_id_otp = to_str"
| "value_converter_by_edge_attribute Edge_id_way = to_int"
| "value_converter_by_edge_attribute Edge_uv = to_tuple"
| "value_converter_by_edge_attribute Edge_name_otp = to_str"
| "value_converter_by_edge_attribute Edge_geometry = to_geom"
| "value_converter_by_edge_attribute Edge_geom_wgs = to_geom"
| "value_converter_by_edge_attribute Edge_length = to_float"
| "value_converter_by_edge_attribute Edge_bike_time_cost = to_float"
| "value_converter_by_edge_attribute Edge_bike_safety_cost = to_float"
| "value_converter_by_edge_attribute Edge_edge_class = to_str"
| "value_converter_by_edge_attribute Edge_street_class = to_str"
| "value_converter_by_edge_attribute Edge_is_stairs = to_bool"
| "value_converter_by_edge_attribute Edge_is_no_thru_traffic = to_bool"
| "value_converter_by_edge_attribute Edge_allows_walking = to_bool"
| "value_converter_by_edge_attribute Edge_allows_biking = to_bool"
| "value_converter_by_edge_attribute Edge_traversable_walking = to_bool"
| "value_converter_by_edge_attribute Edge_traversable_biking = to_bool"
| "value_converter_by_edge_attribute Edge_bike_safety_factor = to_float"
| "value_converter_by_edge_attribute Edge_noises = to_dict"
| "value_converter_by_edge_attribute Edge_noise_source = to_str"
| "value_converter_by_edge_attribute Edge_noise_sources = to_dict"
| "value_converter_by_edge_attribute Edge_aqi = to_float"
| "value_converter_by_edge_attribute Edge_gvi_gsv = to_float"
| "value_converter_by_edge_attribute Edge_gvi_low_veg_share = to_float"
| "value_converter_by_edge_attribute Edge_gvi_high_veg_share = to_float"
| "value_converter_by_edge_attribute Edge_gvi_comb_gsv_veg = to_float"
| "value_converter_by_edge_attribute Edge_gvi_comb_gsv_high_veg = to_float"
| "value_converter_by_edge_attribute Edge_gvi = to_float"

fun value_converter_by_node_attribute :: "Node \<Rightarrow> converter" where
  "value_converter_by_node_attribute Node_id_ig = to_int"
| "value_converter_by_node_attribute Node_id_otp = to_str"
| "value_converter_by_node_attribute Node_name_otp = to_str"
| "value_converter_by_node_attribute Node_geometry = to_geom"
| "value_converter_by_node_attribute Node_geom_wgs = to_geom"
| "value_converter_by_node_attribute Node_traversable_walking = to_bool"
| "value_converter_by_node_attribute Node_traversable_biking = to_bool"
| "value_converter_by_node_attribute Node_traffic_light = to_bool"

subsection \<open>Graphs\<close>

text \<open>
  An igraph graph: the vertices are \<open>0 ..< vcount\<close>, the edges are pairs of vertex
  ids, and the vertex and edge attributes are columns, one list of values per
  attribute name, kept in the order in which the names were added.
\<close>

type_synonym attrs = "(string, pyval list) dict"

record graph =
  vcount :: nat
  edge_list :: "(nat \<times> nat) list"
  vs_attrs :: attrs
  es_attrs :: attrs

definition ecount :: "graph \<Rightarrow> nat" where
  "ecount G = length (edge_list G)"

text \<open>
  \<open>seq[0].attributes()\<close>: the attribute dict of the first vertex or edge, which has
  one entry for every column; \<open>IndexError\<close> when the sequence is empty.
\<close>

definition first_attributes :: "nat \<Rightarrow> attrs \<Rightarrow> py_error + (string, pyval) dict" where
  "first_attributes n a =
     (if 0 < n then Inr (map (\<lambda>(k, col). (k, col ! 0)) a) else Inl IndexError)"

text \<open>\<open>seq[name] = values\<close> replaces the column, or adds it last.\<close>

fun dict_set :: "('k, 'v) dict \<Rightarrow> 'k \<Rightarrow> 'v \<Rightarrow> ('k, 'v) dict" where
  "dict_set [] k v = [(k, v)]"
| "dict_set ((k', v') # d) k v =
     (if k' = k then (k, v) # d else (k', v') # dict_set d k v)"

text \<open>\<open>del seq[name]\<close> raises \<open>KeyError\<close> for a missing column.\<close>

definition dict_del :: "('k, 'v) dict \<Rightarrow> 'k \<Rightarrow> py_error + ('k, 'v) dict" where
  "dict_del d k =
     (if k \<in> set (dict_keys d) then Inr (filter (\<lambda>(k', v). k' \<noteq> k) d)
      else Inl KeyError)"

subsection \<open>\<open>read_graphml\<close>\<close>

text \<open>
  The optional \<open>log\<close> argument (\<open>lg\<close> below) is the logger or \<open>None\<close>; a logger
  is the list of the warnings it has received.
\<close>

type_synonym logger = "string list"

definition warning :: "logger option \<Rightarrow> string \<Rightarrow> logger option" where
  "warning lg msg = (case lg of None \<Rightarrow> None | Some l \<Rightarrow> Some (l @ [msg]))"

text \<open>The list comprehension \<open>[converter(value) for value in values]\<close>.\<close>

fun convert_all :: "(pyval \<Rightarrow> py_error + pyval) \<Rightarrow> pyval list \<Rightarrow> py_error + pyval list" where
  "convert_all c [] = Inr []"
| "convert_all c (v # vs) =
     (case c v of
        Inl e \<Rightarrow> Inl e
      | Inr w \<Rightarrow> (case convert_all c vs of Inl e \<Rightarrow> Inl e | Inr ws \<Rightarrow> Inr (w # ws)))"

text \<open>The body of the \<open>try\<close> for one node attribute, and for one edge attribute.\<close>

definition try_node_attr :: "builtins \<Rightarrow> string \<Rightarrow> graph \<Rightarrow> py_error + graph" where
  "try_node_attr B attr G =
     (case Node_of attr of
        Inl e \<Rightarrow> Inl e
      | Inr m \<Rightarrow>
          (case dict_get (vs_attrs G) attr of
             Inl e \<Rightarrow> Inl e
           | Inr col \<Rightarrow>
               (case convert_all (value_converter_by_node_attribute m B) col of
                  Inl e \<Rightarrow> Inl e
                | Inr col' \<Rightarrow> Inr (G\<lparr>vs_attrs := dict_set (vs_attrs G) attr col'\<rparr>))))"

definition try_edge_attr :: "builtins \<Rightarrow> string \<Rightarrow> graph \<Rightarrow> py_error + graph" where
  "try_edge_attr B attr G =
     (case Edge_of attr of
        Inl e \<Rightarrow> Inl e
      | Inr m \<Rightarrow>
          (case dict_get (es_attrs G) attr of
             Inl e \<Rightarrow> Inl e
           | Inr col \<Rightarrow>
               (case convert_all (value_converter_by_edge_attribute m B) col of
                  Inl e \<Rightarrow> Inl e
                | Inr col' \<Rightarrow> Inr (G\<lparr>es_attrs := dict_set (es_attrs G) attr col'\<rparr>))))"

text \<open>The f-strings of the two warnings.\<close>

definition node_warning :: "string \<Rightarrow> string" where
  "node_warning attr = ''Failed to read node attribute '' @ attr"

definition edge_warning :: "string \<Rightarrow> string" where
  "edge_warning attr = ''Failed to read edge attribute '' @ attr"

text \<open>One round of each loop: \<open>except Exception\<close> keeps the graph and warns.\<close>

definition read_node_attr :: "builtins \<Rightarrow> string \<Rightarrow> graph \<times> logger option \<Rightarrow> graph \<times> logger option" where
  "read_node_attr B attr st =
     (case try_node_attr B attr (fst st) of
        Inr G' \<Rightarrow> (G', snd st)
      | Inl e \<Rightarrow> (fst st, warning (snd st) (node_warning attr)))"

definition read_edge_attr :: "builtins \<Rightarrow> string \<Rightarrow> graph \<times> logger option \<Rightarrow> graph \<times> logger option" where
  "read_edge_attr B attr st =
     (case try_edge_attr B attr (fst st) of
        Inr G' \<Rightarrow> (G', snd st)
      | Inl e \<Rightarrow> (fst st, warning (snd st) (edge_warning attr)))"

text \<open>
  \<open>Read_GraphML\<close> is igraph's parser, a parameter: it gives the raw graph read from
  the file, or fails. The result of \<open>read_graphml\<close> is the graph or the exception,
  together with the logger after the call.
\<close>

definition read_graphml ::
  "builtins \<Rightarrow> (string \<Rightarrow> py_error + graph) \<Rightarrow> string \<Rightarrow> logger option
     \<Rightarrow> (py_error + graph) \<times> logger option" where
  "read_graphml B Read_GraphML graph_file lg =
     (case Read_GraphML graph_file of
        Inl e \<Rightarrow> (Inl e, lg)
      | Inr G0 \<Rightarrow>
          (case dict_del (vs_attrs G0) ''id'' of
             Inl e \<Rightarrow> (Inl e, lg)
           | Inr va \<Rightarrow>
               (let G1 = G0\<lparr>vs_attrs := va\<rparr>
                in case first_attributes (vcount G1) (vs_attrs G1) of
                     Inl e \<Rightarrow> (Inl e, lg)
                   | Inr v0 \<Rightarrow>
                       (let st2 = fold (read_node_attr B) (dict_keys v0) (G1, lg)
                        in case first_attributes (ecount (fst st2)) (es_attrs (fst st2)) of
                             Inl e \<Rightarrow> (Inl e, snd st2)
                           | Inr e0 \<Rightarrow>
                               (let st3 = fold (read_edge_attr B) (dict_keys e0) st2
                                in (Inr (fst st3), snd st3))))))"

subsection \<open>\<open>export_to_graphml\<close>\<close>

text \<open>
  Graph objects live in a store and are named by their address. \<open>G.copy()\<close> puts a
  new object at a fresh address; every assignment and deletion of the function is a
  write to the store at the address of the object it is applied to. The files written
  and the records of the module's logger are part of the state.
\<close>

record py_state =
  heap :: "graph list"
  files :: "(string \<times> graph) list"
  log_records :: "string list"

definition copy_graph :: "nat \<Rightarrow> py_state \<Rightarrow> nat \<times> py_state" where
  "copy_graph g s = (length (heap s), s\<lparr>heap := heap s @ [heap s ! g]\<rparr>)"

definition put_graph :: "nat \<Rightarrow> graph \<Rightarrow> py_state \<Rightarrow> py_state" where
  "put_graph a G s = s\<lparr>heap := (heap s)[a := G]\<rparr>"

text \<open>
  \<open>Gc.vs[name] = [as_string(value) for value in list(Gc.vs[name])]\<close> and the same
  for \<open>Gc.es\<close>.
\<close>

definition vs_as_strings :: "builtins \<Rightarrow> nat \<Rightarrow> string \<Rightarrow> py_state \<Rightarrow> (py_error + unit) \<times> py_state" where
  "vs_as_strings B gc name s =
     (let Gc = heap s ! gc
      in case dict_get (vs_attrs Gc) name of
           Inl e \<Rightarrow> (Inl e, s)
         | Inr col \<Rightarrow>
             (Inr (),
              put_graph gc
                (Gc\<lparr>vs_attrs := dict_set (vs_attrs Gc) name (map (\<lambda>v. VStr (as_string B v)) col)\<rparr>) s))"

definition es_as_strings :: "builtins \<Rightarrow> nat \<Rightarrow> string \<Rightarrow> py_state \<Rightarrow> (py_error + unit) \<times> py_state" where
  "es_as_strings B gc name s =
     (let Gc = heap s ! gc
      in case dict_get (es_attrs Gc) name of
           Inl e \<Rightarrow> (Inl e, s)
         | Inr col \<Rightarrow>
             (Inr (),
              put_graph gc
                (Gc\<lparr>es_attrs := dict_set (es_attrs Gc) name (map (\<lambda>v. VStr (as_string B v)) col)\<rparr>) s))"

definition del_vs :: "nat \<Rightarrow> string \<Rightarrow> py_state \<Rightarrow> (py_error + unit) \<times> py_state" where
  "del_vs gc name s =
     (let Gc = heap s ! gc
      in case dict_del (vs_attrs Gc) name of
           Inl e \<Rightarrow> (Inl e, s)
         | Inr a \<Rightarrow> (Inr (), put_graph gc (Gc\<lparr>vs_attrs := a\<rparr>) s))"

definition del_es :: "nat \<Rightarrow> string \<Rightarrow> py_state \<Rightarrow> (py_error + unit) \<times> py_state" where
  "del_es gc name s =
     (let Gc = heap s ! gc
      in case dict_del (es_attrs Gc) name of
           Inl e \<Rightarrow> (Inl e, s)
         | Inr a \<Rightarrow> (Inr (), put_graph gc (Gc\<lparr>es_attrs := a\<rparr>) s))"

text \<open>A \<open>for\<close> loop over a list whose body may raise: the first exception ends it.\<close>

fun for_each ::
  "('a \<Rightarrow> py_state \<Rightarrow> (py_error + unit) \<times> py_state) \<Rightarrow> 'a list \<Rightarrow> py_state
     \<Rightarrow> (py_error + unit) \<times> py_state" where
  "for_each body [] s = (Inr (), s)"
| "for_each body (x # xs) s =
     (case body x s of
        (Inl e, s') \<Rightarrow> (Inl e, s')
      | (Inr u, s') \<Rightarrow> for_each body xs s')"

text \<open>The four loop bodies of the function, in the order of the source.\<close>

definition export_found_node_attr :: "builtins \<Rightarrow> nat \<Rightarrow> Node \<Rightarrow> py_state \<Rightarrow> (py_error + unit) \<times> py_state" where
  "export_found_node_attr B gc attr s =
     (case first_attributes (vcount (heap s ! gc)) (vs_attrs (heap s ! gc)) of
        Inl e \<Rightarrow> (Inl e, s)
      | Inr v0 \<Rightarrow>
          if Node_value attr \<in> set (dict_keys v0) then vs_as_strings B gc (Node_value attr) s
          else (Inr (), s))"

definition delete_unspecified_node_attr :: "nat \<Rightarrow> Node list \<Rightarrow> string \<Rightarrow> py_state \<Rightarrow> (py_error + unit) \<times> py_state" where
  "delete_unspecified_node_attr gc n_attrs node_attr s =
     (if node_attr \<notin> set (map Node_value n_attrs) then del_vs gc node_attr s
      else (Inr (), s))"

definition export_found_edge_attr :: "builtins \<Rightarrow> nat \<Rightarrow> Edge \<Rightarrow> py_state \<Rightarrow> (py_error + unit) \<times> py_state" where
  "export_found_edge_attr B gc attr s =
     (case first_attributes (ecount (heap s ! gc)) (es_attrs (heap s ! gc)) of
        Inl e \<Rightarrow> (Inl e, s)
      | Inr e0 \<Rightarrow>
          if Edge_value attr \<in> set (dict_keys e0) then es_as_strings B gc (Edge_value attr) s
          else (Inr (), s))"

definition delete_unspecified_edge_attr :: "nat \<Rightarrow> Edge list \<Rightarrow> string \<Rightarrow> py_state \<Rightarrow> (py_error + unit) \<times> py_state" where
  "delete_unspecified_edge_attr gc e_attrs edge_attr s =
     (if edge_attr \<notin> set (map Edge_value e_attrs) then del_es gc edge_attr s
      else (Inr (), s))"

definition export_nodes :: "builtins \<Rightarrow> nat \<Rightarrow> nat \<Rightarrow> Node list \<Rightarrow> py_state \<Rightarrow> (py_error + unit) \<times> py_state" where
  "export_nodes B g gc n_attrs s =
     (if n_attrs = [] then for_each (export_found_node_attr B gc) Node_members s
      else
        (case for_each (\<lambda>attr. vs_as_strings B gc (Node_value attr)) n_attrs s of
           (Inl e, s') \<Rightarrow> (Inl e, s')
         | (Inr u, s') \<Rightarrow>
             for_each (delete_unspecified_node_attr gc n_attrs)
               (dict_keys (vs_attrs (heap s' ! g))) s'))"

definition export_edges :: "builtins \<Rightarrow> nat \<Rightarrow> nat \<Rightarrow> Edge list \<Rightarrow> py_state \<Rightarrow> (py_error + unit) \<times> py_state" where
  "export_edges B g gc e_attrs s =
     (if e_attrs = [] then for_each (export_found_edge_attr B gc) Edge_members s
      else
        (case for_each (\<lambda>attr. es_as_strings B gc (Edge_value attr)) e_attrs s of
           (Inl e, s') \<Rightarrow> (Inl e, s')
         | (Inr u, s') \<Rightarrow>
             for_each (delete_unspecified_edge_attr gc e_attrs)
               (dict_keys (es_attrs (heap s' ! g))) s'))"

text \<open>
  \<open>export_to_graphml(G, graph_file, n_attrs, e_attrs)\<close>, with \<open>g\<close> the address of
  the caller's graph.
\<close>

definition export_to_graphml ::
  "builtins \<Rightarrow> nat \<Rightarrow> string \<Rightarrow> Node list \<Rightarrow> Edge list \<Rightarrow> py_state
     \<Rightarrow> (py_error + unit) \<times> py_state" where
  "export_to_graphml B g graph_file n_attrs e_attrs s =
     (case copy_graph g s of
        (gc, s1) \<Rightarrow>
          (case export_nodes B g gc n_attrs s1 of
             (Inl e, s2) \<Rightarrow> (Inl e, s2)
           | (Inr u, s2) \<Rightarrow>
               (case export_edges B g gc e_attrs s2 of
                  (Inl e, s3) \<Rightarrow> (Inl e, s3)
                | (Inr u', s3) \<Rightarrow>
                    (Inr (),
                     s3\<lparr>files := files s3 @ [(graph_file, heap s3 ! gc)],
                        log_records :=
                          log_records s3 @ [''Exported graph to file: '' @ graph_file]\<rparr>))))"

subsection \<open>Auxiliary notions for the properties\<close>

text \<open>What a step on the working copy at address \<open>gc\<close> keeps of the store.\<close>

definition keeps_others :: "nat \<Rightarrow> py_state \<Rightarrow> py_state \<Rightarrow> bool" where
  "keeps_others gc s s' \<longleftrightarrow>
     length (heap s') = length (heap s) \<and> (\<forall>a. a \<noteq> gc \<longrightarrow> heap s' ! a = heap s ! a)"

text \<open>What the body of the \<open>try\<close> computes from the column of a key.\<close>

definition node_column :: "builtins \<Rightarrow> string \<Rightarrow> pyval list \<Rightarrow> py_error + pyval list" where
  "node_column B attr col =
     (case Node_of attr of
        Inl e \<Rightarrow> Inl e
      | Inr m \<Rightarrow> convert_all (value_converter_by_node_attribute m B) col)"

definition edge_column :: "builtins \<Rightarrow> string \<Rightarrow> pyval list \<Rightarrow> py_error + pyval list" where
  "edge_column B attr col =
     (case Edge_of attr of
        Inl e \<Rightarrow> Inl e
      | Inr m \<Rightarrow> convert_all (value_converter_by_edge_attribute m B) col)"

text \<open>One round of either loop, on the attribute columns alone.\<close>

definition read_attr ::
  "(string \<Rightarrow> pyval list \<Rightarrow> py_error + pyval list) \<Rightarrow> (string \<Rightarrow> string) \<Rightarrow> string
     \<Rightarrow> attrs \<times> logger option \<Rightarrow> attrs \<times> logger option" where
  "read_attr dec msg attr st =
     (case dict_get (fst st) attr of
        Inl e \<Rightarrow> (fst st, warning (snd st) (msg attr))
      | Inr col \<Rightarrow>
          (case dec attr col of
             Inl e \<Rightarrow> (fst st, warning (snd st) (msg attr))
           | Inr col' \<Rightarrow> (dict_set (fst st) attr col', snd st)))"

text \<open>The column after the loop: decoded, or raw when decoding it raised.\<close>

definition decoded_or_raw :: "(string \<Rightarrow> pyval list \<Rightarrow> py_error + pyval list) \<Rightarrow> string \<Rightarrow> pyval list \<Rightarrow> pyval list" where
  "decoded_or_raw dec attr col = (case dec attr col of Inl e \<Rightarrow> col | Inr col' \<Rightarrow> col')"

definition warnings :: "logger option \<Rightarrow> string list \<Rightarrow> logger option" where
  "warnings lg msgs = (case lg of None \<Rightarrow> None | Some l \<Rightarrow> Some (l @ msgs))"

subsection \<open>Example objects\<close>

text \<open>
  A fragment of the runtime, right on the few floats and literals that the examples
  use and on strings that need no escape, and a small graph in its decoded and in its
  raw form.
\<close>

definition example_runtime :: builtins where
  "example_runtime =
     \<lparr>float_str = (\<lambda>x. if x = 8 then ''8.0'' else if x = 1.5 then ''1.5'' else ''nan''),
      float_of_str =
        (\<lambda>s. if s = ''8.0'' then Inr 8 else if s = ''1.5'' then Inr 1.5 else Inl ValueError),
      str_repr = (\<lambda>s. [CHR 0x27] @ s @ [CHR 0x27]),
      literal_eval =
        (\<lambda>s. if s = ''{50: 8.0}'' then Inr (VDict [(VInt 50, VFloat 8)])
             else if s = ''(0, 1)'' then Inr (VTuple [VInt 0, VInt 1])
             else if s = ''None'' then Inr VNone
             else Inl SyntaxError),
      wkt_loads = (\<lambda>s. Inl ValueError)\<rparr>"

definition example_graph :: graph where
  "example_graph =
     \<lparr>vcount = 2, edge_list = [(0, 1)],
      vs_attrs = [(''ii'', [VInt 0, VInt 1]), (''b_tw'', [VBool True, VBool False])],
      es_attrs =
        [(''ii'', [VInt 0]), (''uv'', [VTuple [VInt 0, VInt 1]]), (''l'', [VFloat 8]),
         (''n'', [VDict [(VInt 50, VFloat 8)]])]\<rparr>"

definition example_raw_graph :: graph where
  "example_raw_graph =
     \<lparr>vcount = 2, edge_list = [(0, 1)],
      vs_attrs =
        [(''id'', [VStr ''n0'', VStr ''n1'']), (''ii'', [VStr ''0'', VStr ''1'']),
         (''zz'', [VStr ''x'', VStr ''y'']), (''b_tw'', [VStr ''1'', VStr ''0''])],
      es_attrs =
        [(''ii'', [VStr ''0'']), (''b_st'', [VStr '''']), (''l'', [VStr ''8.0'']),
         (''n'', [VStr ''{50: 8.0}''])]\<rparr>"

definition example_state :: py_state where
  "example_state = \<lparr>heap = [example_graph], files = [], log_records = []\<rparr>"

section \<open>Properties of the noise cost model\<close>






lemma db_distance_costs_error:
  "db_distance_costs t ns = Inl e \<Longrightarrow> e = KeyError"
  by (induction ns arbitrary: e)
     (auto simp: dict_get_def split: option.splits sum.splits)


lemma db_distance_costs_missing:
  "\<not> set (dict_keys ns) \<subseteq> set (dict_keys t) \<Longrightarrow> db_distance_costs t ns = Inl KeyError"
proof (induction ns)
  case Nil
  then show ?case by (simp add: dict_keys_def)
next
  case (Cons p ns)
  obtain db len where p: "p = (db, len)" by (cases p)
  show ?case
  proof (cases "map_of t db")
    case None
    then show ?thesis by (simp add: p dict_get_def)
  next
    case (Some c)
    then have "db \<in> set (dict_keys t)"
      by (metis dict_keys_def map_of_eq_None_iff option.distinct(1) set_map)
    with Cons.prems have "\<not> set (dict_keys ns) \<subseteq> set (dict_keys t)"
      by (simp add: p dict_keys_def)
    then have "db_distance_costs t ns = Inl KeyError" by (rule Cons.IH)
    then show ?thesis by (simp add: p dict_get_def Some)
  qed
qed

lemma cost_coeff_error:
  "get_noise_cost_coeff noises t = Inl e \<Longrightarrow> e = KeyError"
  by (auto simp: get_noise_cost_coeff_def Let_def dest: db_distance_costs_error
      split: if_splits sum.splits)




lemma map_of_table:
  "map_of (map (\<lambda>db. (db, f db)) ks) k = (if k \<in> set ks then Some (f k) else None)"
  by (induction ks) auto

lemma get_db_costs_3:
  "get_db_costs 3 = Inr (map (\<lambda>db. (db, calc_db_cost_v3 db)) dbs)"
  by (simp add: get_db_costs_def)

lemma in_dbs: "k \<in> set dbs \<longleftrightarrow> 40 \<le> k \<and> k \<le> 79"
  unfolding dbs_def by (simp only: set_upto atLeastAtMost_iff)








lemma rhe_mono: "x \<le> y \<Longrightarrow> round_half_even x \<le> round_half_even y"
proof -
  assume xy: "x \<le> y"
  have fl: "\<lfloor>x\<rfloor> \<le> \<lfloor>y\<rfloor>" using xy by (rule floor_mono)
  have bx: "round_half_even x \<le> \<lfloor>x\<rfloor> + 1"
    by (simp add: round_half_even_def Let_def)
  have byy: "\<lfloor>y\<rfloor> \<le> round_half_even y"
    by (simp add: round_half_even_def Let_def)
  show ?thesis
  proof (cases "\<lfloor>x\<rfloor> < \<lfloor>y\<rfloor>")
    case True
    then show ?thesis using bx byy by linarith
  next
    case False
    then have eq: "\<lfloor>x\<rfloor> = \<lfloor>y\<rfloor>" using fl by simp
    then show ?thesis using xy
      by (auto simp add: round_half_even_def Let_def)
  qed
qed

lemma py_round_mono: "x \<le> y \<Longrightarrow> py_round x n \<le> py_round y n"
  unfolding py_round_def
  by (intro divide_right_mono) (auto intro!: rhe_mono mult_right_mono)

lemma calc_db_cost_v2_mono:
  "45 \<le> a \<Longrightarrow> a \<le> b \<Longrightarrow> calc_db_cost_v2 a \<le> calc_db_cost_v2 b"
  unfolding calc_db_cost_v2_def
  by (auto intro!: py_round_mono divide_right_mono)

lemma calc_db_cost_v3_mono:
  "45 \<le> a \<Longrightarrow> a \<le> b \<Longrightarrow> calc_db_cost_v3 a \<le> calc_db_cost_v3 b"
  unfolding calc_db_cost_v3_def
  by (auto intro!: py_round_mono divide_right_mono powr_mono)

lemma dict_get_table:
  "dict_get (map (\<lambda>db. (db, f db)) ks) k = (if k \<in> set ks then Inr (f k) else Inl KeyError)"
  by (simp add: dict_get_def map_of_table)

text \<open>
  C6: for versions 2 and 3 the table has exactly the keys 40..79, in this order; the
  value is 0 up to 44 dB, and from 45 dB on it is \<open>(dB - 40)/(75 - 40)\<close> (version 2)
  or \<open>10^(0.3 dB/10)/100\<close> (version 3), rounded to 3 decimals; both tables are 0 at
  44 dB and non-decreasing over 45..79.
\<close>

theorem db_cost_tables:
  "version = 2 \<or> version = 3 \<longrightarrow>
     (\<exists>t. get_db_costs version = Inr t
        \<and> dict_keys t = [40..79]
        \<and> (\<forall>db\<in>{40..79}. dict_get t db =
              Inr (if db \<le> 44 then 0
                   else if version = 2 then py_round ((of_int db - 40) / (75 - 40)) 3
                   else py_round (10 powr (0.3 * of_int db / 10) / 100) 3))
        \<and> dict_get t 44 = Inr 0
        \<and> (\<forall>a b. 45 \<le> a \<and> a \<le> b \<and> b \<le> 79 \<longrightarrow>
              (\<exists>x y. dict_get t a = Inr x \<and> dict_get t b = Inr y \<and> x \<le> y)))"
proof
  assume v: "version = 2 \<or> version = 3"
  define f where "f = (if version = 2 then calc_db_cost_v2 else calc_db_cost_v3)"
  define t where "t = map (\<lambda>db. (db, f db)) dbs"
  have g: "get_db_costs version = Inr t"
    using v by (auto simp: get_db_costs_def t_def f_def)
  have k: "dict_keys t = [40..79]"
    by (simp add: t_def dict_keys_def comp_def dbs_def del: upto.simps)
  have l: "dict_get t db = Inr (f db)" if "db \<in> {40..79}" for db
    using that by (simp add: t_def dict_get_table in_dbs)
  have fv: "f db = (if db \<le> 44 then 0
                   else if version = 2 then py_round ((of_int db - 40) / (75 - 40)) 3
                   else py_round (10 powr (0.3 * of_int db / 10) / 100) 3)" for db
    using v by (auto simp: f_def calc_db_cost_v2_def calc_db_cost_v3_def)
  have m: "f a \<le> f b" if "45 \<le> a" "a \<le> b" for a b
    using that by (simp add: f_def calc_db_cost_v2_mono calc_db_cost_v3_mono)
  have z: "dict_get t 44 = Inr 0"
    using l [of 44] fv [of 44] by simp
  have mm: "\<exists>x y. dict_get t a = Inr x \<and> dict_get t b = Inr y \<and> x \<le> y"
    if "45 \<le> a \<and> a \<le> b \<and> b \<le> 79" for a b
    using that l [of a] l [of b] m [of a b] by simp
  from g k l fv z mm show "\<exists>t. get_db_costs version = Inr t
        \<and> dict_keys t = [40..79]
        \<and> (\<forall>db\<in>{40..79}. dict_get t db =
              Inr (if db \<le> 44 then 0
                   else if version = 2 then py_round ((of_int db - 40) / (75 - 40)) 3
                   else py_round (10 powr (0.3 * of_int db / 10) / 100) 3))
        \<and> dict_get t 44 = Inr 0
        \<and> (\<forall>a b. 45 \<le> a \<and> a \<le> b \<and> b \<le> 79 \<longrightarrow>
              (\<exists>x y. dict_get t a = Inr x \<and> dict_get t b = Inr y \<and> x \<le> y))"
    by (intro exI [of _ t]) simp
qed

theorem db_cost_tables_witness:
  "\<exists>t. get_db_costs 2 = Inr t \<and> dict_get t 44 = Inr 0 \<and> dict_get t 75 = Inr 1
       \<and> (\<exists>x y. dict_get t 45 = Inr x \<and> dict_get t 79 = Inr y \<and> x \<le> y)"
proof -
  have "(2::int) = 2 \<or> (2::int) = 3" by simp
  with db_cost_tables [of 2] obtain t where t: "get_db_costs 2 = Inr t"
     "\<forall>db\<in>{40..79}. dict_get t db =
              Inr (if db \<le> 44 then 0
                   else if (2::int) = 2 then py_round ((of_int db - 40) / (75 - 40)) 3
                   else py_round (10 powr (0.3 * of_int db / 10) / 100) 3)"
     "dict_get t 44 = Inr 0"
     "\<forall>a b. 45 \<le> a \<and> a \<le> b \<and> b \<le> 79 \<longrightarrow>
              (\<exists>x y. dict_get t a = Inr x \<and> dict_get t b = Inr y \<and> x \<le> y)"
    by blast
  have "py_round ((of_int 75 - 40) / (75 - 40)) 3 = 1" by code_simp
  with t(2) have "dict_get t 75 = Inr 1" by simp
  moreover from t(4) have "\<exists>x y. dict_get t 45 = Inr x \<and> dict_get t 79 = Inr y \<and> x \<le> y"
    by simp
  ultimately show ?thesis using t(1,3) by blast
qed

lemma get_db_costs_keys:
  "get_db_costs v = Inr t \<Longrightarrow> dict_keys t = [40..79]"
  by (auto simp: get_db_costs_def dict_keys_def dbs_def comp_def split: if_splits simp del: upto.simps)

text \<open>
  C7: every version other than 2 and 3 is refused with \<open>ValueError\<close>; a non-empty
  exposure map with a dB key that the cost table lacks makes the cost coefficient and
  the exposure index raise \<open>KeyError\<close> and the edge cost raise (the integrity
  \<open>ValueError\<close> when the lengths disagree, \<open>KeyError\<close> otherwise); the tables
  built by \<open>get_db_costs\<close> lack every dB outside 40..79.
\<close>

theorem hard_errors:
  "(version \<noteq> 2 \<and> version \<noteq> 3 \<longrightarrow> get_db_costs version = Inl ValueError)
   \<and> (ns \<noteq> [] \<and> db \<in> set (dict_keys ns) \<and> db \<notin> set (dict_keys t) \<longrightarrow>
        get_noise_cost_coeff (Some ns) t = Inl KeyError
        \<and> get_noise_exposure_index (Some ns) t = Inl KeyError
        \<and> (get_noise_adjusted_edge_cost s t (Some ns) len btc = Inl ValueError
            \<or> get_noise_adjusted_edge_cost s t (Some ns) len btc = Inl KeyError))
   \<and> (get_db_costs v = Inr t \<and> (db < 40 \<or> 79 < db) \<longrightarrow> db \<notin> set (dict_keys t))"
proof -
  have a: "get_db_costs version = Inl ValueError" if "version \<noteq> 2 \<and> version \<noteq> 3"
    using that by (simp add: get_db_costs_def)
  have m: "db_distance_costs t ns = Inl KeyError"
    if "db \<in> set (dict_keys ns)" "db \<notin> set (dict_keys t)"
    using that by (intro db_distance_costs_missing) blast
  have b: "get_noise_cost_coeff (Some ns) t = Inl KeyError"
    "get_noise_exposure_index (Some ns) t = Inl KeyError"
    if "ns \<noteq> []" "db \<in> set (dict_keys ns)" "db \<notin> set (dict_keys t)"
    using that m
    by (simp_all add: get_noise_cost_coeff_def get_noise_exposure_index_def not_noises_def)
  have c: "get_noise_adjusted_edge_cost s t (Some ns) len btc = Inl ValueError
            \<or> get_noise_adjusted_edge_cost s t (Some ns) len btc = Inl KeyError"
    if "ns \<noteq> []" "db \<in> set (dict_keys ns)" "db \<notin> set (dict_keys t)"
    using b(1) [OF that]
    by (simp add: get_noise_adjusted_edge_cost_def Let_def)
  have d: "db \<notin> set (dict_keys t)" if "get_db_costs v = Inr t" "db < 40 \<or> 79 < db"
    using that get_db_costs_keys [of v t] by auto
  from a b c d show ?thesis by blast
qed

theorem hard_errors_witness:
  "get_db_costs 4 = Inl ValueError
   \<and> get_noise_cost_coeff (Some [(80, 20)]) (map (\<lambda>db. (db, calc_db_cost_v3 db)) dbs) = Inl KeyError
   \<and> get_noise_exposure_index (Some [(80, 20)]) (map (\<lambda>db. (db, calc_db_cost_v3 db)) dbs) = Inl KeyError
   \<and> get_noise_adjusted_edge_cost 0.5 (map (\<lambda>db. (db, calc_db_cost_v3 db)) dbs) (Some [(80, 20)]) 20 None
       = Inl KeyError"
proof -
  let ?v3 = "map (\<lambda>db. (db, calc_db_cost_v3 db)) dbs"
  let ?ns = "[(80, 20)] :: noises"
  note inst = hard_errors [of 4 ?ns 80 ?v3 "0.5" 20 None 3]
  have v: "(4::int) \<noteq> 2 \<and> (4::int) \<noteq> 3" by simp
  have g: "get_db_costs 3 = Inr ?v3 \<and> ((80::int) < 40 \<or> 79 < (80::int))"
    by (simp add: get_db_costs_3)
  with inst have k: "80 \<notin> set (dict_keys ?v3)" by blast
  have n: "?ns \<noteq> [] \<and> 80 \<in> set (dict_keys ?ns)" by (simp add: dict_keys_def)
  have nv: "get_noise_adjusted_edge_cost 0.5 ?v3 (Some ?ns) 20 None \<noteq> Inl ValueError"
    using cost_coeff_error [of "Some ?ns" ?v3]
    by (auto simp add: get_noise_adjusted_edge_cost_def dict_values_def Let_def split: sum.splits)
  from inst v k n nv show ?thesis by blast
qed

lemma py_round_0 [simp]: "py_round 0 n = 0"
  by (simp add: py_round_def round_half_even_def)





section \<open>Properties of the graph codec\<close>

lemma keeps_others_refl [simp]: "keeps_others gc s s"
  by (simp add: keeps_others_def)

lemma keeps_others_trans:
  "keeps_others gc s s' \<Longrightarrow> keeps_others gc s' s'' \<Longrightarrow> keeps_others gc s s''"
  by (simp add: keeps_others_def)

lemma keeps_others_put [simp]: "keeps_others gc s (put_graph gc G s)"
  by (simp add: keeps_others_def put_graph_def)

lemma vs_as_strings_keeps: "keeps_others gc s (snd (vs_as_strings B gc name s))"
  by (simp add: vs_as_strings_def Let_def split: sum.splits)

lemma es_as_strings_keeps: "keeps_others gc s (snd (es_as_strings B gc name s))"
  by (simp add: es_as_strings_def Let_def split: sum.splits)

lemma del_vs_keeps: "keeps_others gc s (snd (del_vs gc name s))"
  by (simp add: del_vs_def Let_def split: sum.splits)

lemma del_es_keeps: "keeps_others gc s (snd (del_es gc name s))"
  by (simp add: del_es_def Let_def split: sum.splits)

lemma for_each_keeps:
  assumes "\<And>x s. keeps_others gc s (snd (body x s))"
  shows "keeps_others gc s (snd (for_each body xs s))"
proof (induction xs arbitrary: s)
  case Nil
  then show ?case by simp
next
  case (Cons x xs)
  obtain r s' where b: "body x s = (r, s')" by (cases "body x s")
  have k: "keeps_others gc s s'" using assms [of s x] by (simp add: b)
  show ?case
  proof (cases r)
    case (Inl e)
    then show ?thesis using k by (simp add: b)
  next
    case (Inr u)
    then show ?thesis
      using keeps_others_trans [OF k Cons.IH [of s']] by (simp add: b)
  qed
qed

lemma export_nodes_keeps: "keeps_others gc s (snd (export_nodes B g gc n_attrs s))"
proof (cases "n_attrs = []")
  case True
  have "keeps_others gc s (snd (export_found_node_attr B gc x s))" for x s
    by (simp add: export_found_node_attr_def vs_as_strings_keeps split: sum.splits)
  then show ?thesis
    using True by (simp add: export_nodes_def for_each_keeps)
next
  case False
  obtain r s' where f: "for_each (\<lambda>attr. vs_as_strings B gc (Node_value attr)) n_attrs s = (r, s')"
    by (cases "for_each (\<lambda>attr. vs_as_strings B gc (Node_value attr)) n_attrs s")
  have k: "keeps_others gc s s'"
    using for_each_keeps [of gc "\<lambda>attr. vs_as_strings B gc (Node_value attr)" s n_attrs]
    by (simp add: vs_as_strings_keeps f)
  have d: "keeps_others gc s (snd (delete_unspecified_node_attr gc n_attrs x s))" for x s
    by (simp add: delete_unspecified_node_attr_def del_vs_keeps)
  show ?thesis
  proof (cases r)
    case (Inl e)
    then show ?thesis using False k by (simp add: export_nodes_def f)
  next
    case (Inr u)
    have "keeps_others gc s' (snd (for_each (delete_unspecified_node_attr gc n_attrs)
               (dict_keys (vs_attrs (heap s' ! g))) s'))"
      using d by (rule for_each_keeps)
    with k have "keeps_others gc s (snd (for_each (delete_unspecified_node_attr gc n_attrs)
               (dict_keys (vs_attrs (heap s' ! g))) s'))"
      by (rule keeps_others_trans)
    then show ?thesis using False Inr by (simp add: export_nodes_def f)
  qed
qed

lemma export_edges_keeps: "keeps_others gc s (snd (export_edges B g gc e_attrs s))"
proof (cases "e_attrs = []")
  case True
  have "keeps_others gc s (snd (export_found_edge_attr B gc x s))" for x s
    by (simp add: export_found_edge_attr_def es_as_strings_keeps split: sum.splits)
  then show ?thesis
    using True by (simp add: export_edges_def for_each_keeps)
next
  case False
  obtain r s' where f: "for_each (\<lambda>attr. es_as_strings B gc (Edge_value attr)) e_attrs s = (r, s')"
    by (cases "for_each (\<lambda>attr. es_as_strings B gc (Edge_value attr)) e_attrs s")
  have k: "keeps_others gc s s'"
    using for_each_keeps [of gc "\<lambda>attr. es_as_strings B gc (Edge_value attr)" s e_attrs]
    by (simp add: es_as_strings_keeps f)
  have d: "keeps_others gc s (snd (delete_unspecified_edge_attr gc e_attrs x s))" for x s
    by (simp add: delete_unspecified_edge_attr_def del_es_keeps)
  show ?thesis
  proof (cases r)
    case (Inl e)
    then show ?thesis using False k by (simp add: export_edges_def f)
  next
    case (Inr u)
    have "keeps_others gc s' (snd (for_each (delete_unspecified_edge_attr gc e_attrs)
               (dict_keys (es_attrs (heap s' ! g))) s'))"
      using d by (rule for_each_keeps)
    with k have "keeps_others gc s (snd (for_each (delete_unspecified_edge_attr gc e_attrs)
               (dict_keys (es_attrs (heap s' ! g))) s'))"
      by (rule keeps_others_trans)
    then show ?thesis using False Inr by (simp add: export_edges_def f)
  qed
qed

lemma export_keeps:
  "keeps_others (length (heap s)) (s\<lparr>heap := heap s @ [heap s ! g]\<rparr>)
     (snd (export_to_graphml B g graph_file n_attrs e_attrs s))"
proof -
  let ?gc = "length (heap s)"
  let ?s1 = "s\<lparr>heap := heap s @ [heap s ! g]\<rparr>"
  obtain r2 s2 where n: "export_nodes B g ?gc n_attrs ?s1 = (r2, s2)"
    by (cases "export_nodes B g ?gc n_attrs ?s1")
  obtain r3 s3 where e: "export_edges B g ?gc e_attrs s2 = (r3, s3)"
    by (cases "export_edges B g ?gc e_attrs s2")
  have k2: "keeps_others ?gc ?s1 s2"
    using export_nodes_keeps [of ?gc ?s1 B g n_attrs] by (simp add: n)
  have k3: "keeps_others ?gc s2 s3"
    using export_edges_keeps [of ?gc s2 B g e_attrs] by (simp add: e)
  have k13: "keeps_others ?gc ?s1 s3" using k2 k3 by (rule keeps_others_trans)
  show ?thesis
  proof (cases r2)
    case (Inl x)
    then show ?thesis using k2 by (simp add: export_to_graphml_def copy_graph_def n)
  next
    case r2: (Inr u)
    show ?thesis
    proof (cases r3)
      case (Inl x)
      then show ?thesis using k13 r2 by (simp add: export_to_graphml_def copy_graph_def n e)
    next
      case (Inr u')
      then show ?thesis using k13 r2
        by (simp add: export_to_graphml_def copy_graph_def n e keeps_others_def)
    qed
  qed
qed

text \<open>
  C3: \<open>export_to_graphml\<close> leaves the caller's graph as it was: after the call,
  whether it returned or raised, the object at the address of \<open>G\<close> (and every other
  object that existed before the call) is equal to what it was, structure and node and
  edge attribute columns alike. Only the working copy is written to.
\<close>

theorem export_leaves_graph_unchanged:
  "g < length (heap s) \<longrightarrow>
     heap (snd (export_to_graphml B g graph_file n_attrs e_attrs s)) ! g = heap s ! g
     \<and> (\<forall>a < length (heap s).
          heap (snd (export_to_graphml B g graph_file n_attrs e_attrs s)) ! a = heap s ! a)"
proof -
  have "heap (snd (export_to_graphml B g graph_file n_attrs e_attrs s)) ! a = heap s ! a"
    if "a < length (heap s)" for a
    using that export_keeps [of s g B graph_file n_attrs e_attrs]
    by (simp add: keeps_others_def nth_append)
  then show ?thesis by blast
qed

theorem export_leaves_graph_unchanged_witness:
  "fst (export_to_graphml example_runtime 0 ''out.graphml'' [Node_id_ig] [Edge_noises]
          example_state) = Inr ()
   \<and> heap (snd (export_to_graphml example_runtime 0 ''out.graphml'' [Node_id_ig] [Edge_noises]
          example_state)) ! 0 = example_graph
   \<and> files (snd (export_to_graphml example_runtime 0 ''out.graphml'' [Node_id_ig] [Edge_noises]
          example_state)) =
       [(''out.graphml'',
         \<lparr>vcount = 2, edge_list = [(0, 1)], vs_attrs = [(''ii'', [VStr ''0'', VStr ''1''])],
          es_attrs = [(''n'', [VStr ''{50: 8.0}''])]\<rparr>)]"
proof -
  have v: "0 < length (heap example_state)" by (simp add: example_state_def)
  have h: "heap example_state ! 0 = example_graph" by (simp add: example_state_def)
  have a: "fst (export_to_graphml example_runtime 0 ''out.graphml'' [Node_id_ig] [Edge_noises]
          example_state) = Inr ()"
    by code_simp
  have b: "files (snd (export_to_graphml example_runtime 0 ''out.graphml'' [Node_id_ig] [Edge_noises]
          example_state)) =
       [(''out.graphml'',
         \<lparr>vcount = 2, edge_list = [(0, 1)], vs_attrs = [(''ii'', [VStr ''0'', VStr ''1''])],
          es_attrs = [(''n'', [VStr ''{50: 8.0}''])]\<rparr>)]"
    by code_simp
  from export_leaves_graph_unchanged
         [of 0 example_state example_runtime "''out.graphml''" "[Node_id_ig]" "[Edge_noises]"] v h
  have "heap (snd (export_to_graphml example_runtime 0 ''out.graphml'' [Node_id_ig] [Edge_noises]
          example_state)) ! 0 = example_graph"
    by simp
  with a b show ?thesis by blast
qed

lemma read_node_attr_eq:
  "read_node_attr B attr (G, lg) =
     (let r = read_attr (node_column B) node_warning attr (vs_attrs G, lg)
      in (G\<lparr>vs_attrs := fst r\<rparr>, snd r))"
  by (simp add: read_node_attr_def try_node_attr_def read_attr_def node_column_def Let_def
      split: sum.splits)

lemma read_edge_attr_eq:
  "read_edge_attr B attr (G, lg) =
     (let r = read_attr (edge_column B) edge_warning attr (es_attrs G, lg)
      in (G\<lparr>es_attrs := fst r\<rparr>, snd r))"
  by (simp add: read_edge_attr_def try_edge_attr_def read_attr_def edge_column_def Let_def
      split: sum.splits)

lemma fold_read_node_attr:
  "fold (read_node_attr B) ks (G, lg) =
     (let r = fold (read_attr (node_column B) node_warning) ks (vs_attrs G, lg)
      in (G\<lparr>vs_attrs := fst r\<rparr>, snd r))"
proof (induction ks arbitrary: G lg)
  case Nil
  then show ?case by simp
next
  case (Cons k ks)
  obtain a l where r: "read_attr (node_column B) node_warning k (vs_attrs G, lg) = (a, l)"
    by (cases "read_attr (node_column B) node_warning k (vs_attrs G, lg)")
  show ?case
    using Cons.IH [of "G\<lparr>vs_attrs := a\<rparr>" l]
    by (simp add: read_node_attr_eq r Let_def)
qed

lemma fold_read_edge_attr:
  "fold (read_edge_attr B) ks (G, lg) =
     (let r = fold (read_attr (edge_column B) edge_warning) ks (es_attrs G, lg)
      in (G\<lparr>es_attrs := fst r\<rparr>, snd r))"
proof (induction ks arbitrary: G lg)
  case Nil
  then show ?case by simp
next
  case (Cons k ks)
  obtain a l where r: "read_attr (edge_column B) edge_warning k (es_attrs G, lg) = (a, l)"
    by (cases "read_attr (edge_column B) edge_warning k (es_attrs G, lg)")
  show ?case
    using Cons.IH [of "G\<lparr>es_attrs := a\<rparr>" l]
    by (simp add: read_edge_attr_eq r Let_def)
qed

lemma dict_set_distinct:
  "distinct (dict_keys d) \<Longrightarrow>
   dict_set d k v = (if k \<in> set (dict_keys d)
                     then map (\<lambda>(k', v'). if k' = k then (k', v) else (k', v')) d
                     else d @ [(k, v)])"
proof (induction d)
  case Nil
  then show ?case by (simp add: dict_keys_def)
next
  case (Cons p d)
  obtain k' v' where p: "p = (k', v')" by (cases p)
  from Cons.prems have dd: "distinct (dict_keys d)" and nk: "k' \<notin> set (dict_keys d)"
    by (simp_all add: p dict_keys_def)
  show ?case
  proof (cases "k' = k")
    case True
    with nk have "map (\<lambda>(k', v'). if k' = k then (k', v) else (k', v')) d = d"
      by (intro map_idI) (force simp: dict_keys_def)
    with True show ?thesis by (simp add: p dict_keys_def)
  next
    case False
    with Cons.IH [OF dd] show ?thesis by (simp add: p dict_keys_def)
  qed
qed

lemma dict_get_distinct:
  "distinct (dict_keys d) \<Longrightarrow> (k, v) \<in> set d \<Longrightarrow> dict_get d k = Inr v"
  by (simp add: dict_get_def dict_keys_def)

lemma warnings_Nil [simp]: "warnings lg [] = lg"
  by (simp add: warnings_def split: option.splits)

lemma warnings_Cons: "warnings (warning lg m) ms = warnings lg (m # ms)"
  by (simp add: warnings_def warning_def split: option.splits)

lemma read_attr_step:
  assumes "distinct (dict_keys d)" "k \<in> set (dict_keys d)"
  shows "read_attr dec msg k (d, lg) =
           (map (\<lambda>(k', col). if k' = k then (k', decoded_or_raw dec k' col) else (k', col)) d,
            if isl (dec k (the (map_of d k))) then warning lg (msg k) else lg)"
proof -
  from assms(2) obtain col where c: "(k, col) \<in> set d"
    by (auto simp: dict_keys_def)
  with assms(1) have g: "dict_get d k = Inr col" by (rule dict_get_distinct)
  then have m: "map_of d k = Some col"
    by (simp add: dict_get_def split: option.splits)
  show ?thesis
  proof (cases "dec k col")
    case (Inl e)
    have "map (\<lambda>(k', col). if k' = k then (k', decoded_or_raw dec k' col) else (k', col)) d = d"
    proof (intro map_idI)
      fix p assume "p \<in> set d"
      obtain k' c' where p: "p = (k', c')" by (cases p)
      show "(case p of (k', col) \<Rightarrow> if k' = k then (k', decoded_or_raw dec k' col) else (k', col)) = p"
      proof (cases "k' = k")
        case True
        with \<open>p \<in> set d\<close> p assms(1) m have "c' = col"
          by (simp add: dict_keys_def)
        with True Inl show ?thesis by (simp add: p decoded_or_raw_def)
      next
        case False
        then show ?thesis by (simp add: p)
      qed
    qed
    with Inl show ?thesis by (simp add: read_attr_def g m)
  next
    case (Inr col')
    have "map (\<lambda>(k', v'). if k' = k then (k', col') else (k', v')) d =
          map (\<lambda>(k', col). if k' = k then (k', decoded_or_raw dec k' col) else (k', col)) d"
    proof (intro map_cong refl)
      fix p assume "p \<in> set d"
      obtain k' c' where p: "p = (k', c')" by (cases p)
      show "(case p of (k', v') \<Rightarrow> if k' = k then (k', col') else (k', v')) =
            (case p of (k', col) \<Rightarrow> if k' = k then (k', decoded_or_raw dec k' col) else (k', col))"
      proof (cases "k' = k")
        case True
        with \<open>p \<in> set d\<close> p assms(1) m have "c' = col"
          by (simp add: dict_keys_def)
        with True Inr show ?thesis by (simp add: p decoded_or_raw_def)
      next
        case False
        then show ?thesis by (simp add: p)
      qed
    qed
    with Inr assms show ?thesis
      by (simp add: read_attr_def g m dict_set_distinct)
  qed
qed

lemma map_of_update_other:
  "k'' \<noteq> k \<Longrightarrow>
   map_of (map (\<lambda>(k', col). if k' = k then (k', f k' col) else (k', col)) d) k'' = map_of d k''"
  by (induction d) auto

lemma dict_keys_update:
  "dict_keys (map (\<lambda>(k', col). if P k' then (k', f k' col) else (k', col)) d) = dict_keys d"
  by (induction d) (auto simp: dict_keys_def)

lemma fold_read_attr:
  assumes "distinct (dict_keys d)" "set ks \<subseteq> set (dict_keys d)" "distinct ks"
  shows "fold (read_attr dec msg) ks (d, lg) =
           (map (\<lambda>(k, col). if k \<in> set ks then (k, decoded_or_raw dec k col) else (k, col)) d,
            warnings lg (map (\<lambda>k. msg k) (filter (\<lambda>k. isl (dec k (the (map_of d k)))) ks)))"
  using assms
proof (induction ks arbitrary: d lg)
  case Nil
  have "map (\<lambda>(k, col). (k, col)) d = d" by (intro map_idI) auto
  then show ?case by simp
next
  case (Cons k ks)
  let ?d1 = "map (\<lambda>(k', col). if k' = k then (k', decoded_or_raw dec k' col) else (k', col)) d"
  let ?l1 = "if isl (dec k (the (map_of d k))) then warning lg (msg k) else lg"
  from Cons.prems have kd: "k \<in> set (dict_keys d)" and kk: "k \<notin> set ks"
    and sub: "set ks \<subseteq> set (dict_keys d)" and dk: "distinct ks"
    by simp_all
  have step: "read_attr dec msg k (d, lg) = (?d1, ?l1)"
    using Cons.prems(1) kd by (rule read_attr_step)
  have keys1: "dict_keys ?d1 = dict_keys d" by (rule dict_keys_update)
  have ih: "fold (read_attr dec msg) ks (?d1, ?l1) =
           (map (\<lambda>(k, col). if k \<in> set ks then (k, decoded_or_raw dec k col) else (k, col)) ?d1,
            warnings ?l1 (map (\<lambda>k. msg k) (filter (\<lambda>k. isl (dec k (the (map_of ?d1 k)))) ks)))"
    using Cons.prems(1) sub dk by (intro Cons.IH) (simp_all add: keys1)
  have m: "map (\<lambda>(k, col). if k \<in> set ks then (k, decoded_or_raw dec k col) else (k, col)) ?d1 =
           map (\<lambda>(k', col). if k' \<in> set (k # ks) then (k', decoded_or_raw dec k' col) else (k', col)) d"
    using kk by (auto simp: comp_def)
  have f: "filter (\<lambda>k. isl (dec k (the (map_of ?d1 k)))) ks =
           filter (\<lambda>k. isl (dec k (the (map_of d k)))) ks"
  proof (intro filter_cong refl)
    fix x assume "x \<in> set ks"
    with kk have "x \<noteq> k" by auto
    then show "isl (dec x (the (map_of ?d1 x))) = isl (dec x (the (map_of d x)))"
      by (simp add: map_of_update_other)
  qed
  have w: "warnings ?l1 (map (\<lambda>k. msg k) (filter (\<lambda>k. isl (dec k (the (map_of d k)))) ks)) =
           warnings lg (map (\<lambda>k. msg k) (filter (\<lambda>k. isl (dec k (the (map_of d k)))) (k # ks)))"
    by (simp add: warnings_Cons)
  show ?case
    unfolding fold_simps step ih m f w ..
qed

lemma warnings_append: "warnings (warnings lg a) b = warnings lg (a @ b)"
  by (simp add: warnings_def split: option.splits)

lemma dict_keys_first_attributes:
  "first_attributes n a = Inr v0 \<Longrightarrow> dict_keys v0 = dict_keys a"
  by (auto simp: first_attributes_def dict_keys_def split: if_splits)

lemma first_attributes_error:
  "first_attributes n a = Inl e \<longleftrightarrow> n = 0 \<and> e = IndexError"
  by (auto simp: first_attributes_def)

lemma dict_keys_filter_distinct:
  "distinct (dict_keys d) \<Longrightarrow> distinct (dict_keys (filter P d))"
  by (simp add: dict_keys_def distinct_map_filter)

lemma map_all_keys:
  "map (\<lambda>(k, col). if k \<in> set (dict_keys d) then (k, f k col) else (k, col)) d =
   map (\<lambda>(k, col). (k, f k col)) d"
  by (intro map_cong refl) (auto simp: dict_keys_def rev_image_eqI)

lemma read_graphml_ok:
  assumes R: "Read_GraphML f = Inr G"
    and idk: "''id'' \<in> set (dict_keys (vs_attrs G))"
    and dv: "distinct (dict_keys (vs_attrs G))"
    and de: "distinct (dict_keys (es_attrs G))"
    and nv: "0 < vcount G" and ne: "0 < ecount G"
  defines "va \<equiv> filter (\<lambda>(k, col). k \<noteq> ''id'') (vs_attrs G)"
  shows "read_graphml B Read_GraphML f lg =
     (Inr (G\<lparr>vs_attrs := map (\<lambda>(k, col). (k, decoded_or_raw (node_column B) k col)) va,
             es_attrs := map (\<lambda>(k, col). (k, decoded_or_raw (edge_column B) k col)) (es_attrs G)\<rparr>),
      warnings lg
        (map (\<lambda>k. node_warning k)
           (filter (\<lambda>k. isl (node_column B k (the (map_of va k)))) (dict_keys va))
         @ map (\<lambda>k. edge_warning k)
             (filter (\<lambda>k. isl (edge_column B k (the (map_of (es_attrs G) k))))
                (dict_keys (es_attrs G)))))"
proof -
  have del: "dict_del (vs_attrs G) ''id'' = Inr va"
    using idk by (simp add: dict_del_def va_def)
  have dva: "distinct (dict_keys va)"
    unfolding va_def using dv by (rule dict_keys_filter_distinct)
  have fv: "first_attributes (vcount G) va = Inr (map (\<lambda>(k, col). (k, col ! 0)) va)"
    using nv by (simp add: first_attributes_def)
  have kv: "dict_keys (map (\<lambda>(k, col). (k, col ! 0)) va) = dict_keys va"
    using fv by (rule dict_keys_first_attributes)
  have fe: "first_attributes (ecount G) (es_attrs G) =
              Inr (map (\<lambda>(k, col). (k, col ! 0)) (es_attrs G))"
    using ne by (simp add: first_attributes_def)
  have ke: "dict_keys (map (\<lambda>(k, col). (k, col ! 0)) (es_attrs G)) = dict_keys (es_attrs G)"
    using fe by (rule dict_keys_first_attributes)
  have nodes: "fold (read_attr (node_column B) node_warning) (dict_keys va) (va, lg) =
      (map (\<lambda>(k, col). (k, decoded_or_raw (node_column B) k col)) va,
       warnings lg (map (\<lambda>k. node_warning k)
           (filter (\<lambda>k. isl (node_column B k (the (map_of va k)))) (dict_keys va))))"
    using fold_read_attr [OF dva subset_refl dva, of "node_column B" node_warning lg]
    by (simp only: map_all_keys)
  have edges: "fold (read_attr (edge_column B) edge_warning) (dict_keys (es_attrs G))
        (es_attrs G, lg') =
      (map (\<lambda>(k, col). (k, decoded_or_raw (edge_column B) k col)) (es_attrs G),
       warnings lg' (map (\<lambda>k. edge_warning k)
           (filter (\<lambda>k. isl (edge_column B k (the (map_of (es_attrs G) k)))) (dict_keys (es_attrs G)))))"
    for lg'
    using fold_read_attr [OF de subset_refl de, of "edge_column B" edge_warning lg']
    by (simp only: map_all_keys)
  let ?G1 = "G\<lparr>vs_attrs := va\<rparr>"
  let ?nw = "warnings lg (map (\<lambda>k. node_warning k)
           (filter (\<lambda>k. isl (node_column B k (the (map_of va k)))) (dict_keys va)))"
  let ?va' = "map (\<lambda>(k, col). (k, decoded_or_raw (node_column B) k col)) va"
  have st2: "fold (read_node_attr B) (dict_keys va) (?G1, lg) = (?G1\<lparr>vs_attrs := ?va'\<rparr>, ?nw)"
    unfolding fold_read_node_attr by (simp add: nodes Let_def)
  have st3: "fold (read_edge_attr B) (dict_keys (es_attrs G)) (?G1\<lparr>vs_attrs := ?va'\<rparr>, ?nw) =
      (?G1\<lparr>vs_attrs := ?va', es_attrs := map (\<lambda>(k, col). (k, decoded_or_raw (edge_column B) k col)) (es_attrs G)\<rparr>,
       warnings ?nw (map (\<lambda>k. edge_warning k)
           (filter (\<lambda>k. isl (edge_column B k (the (map_of (es_attrs G) k)))) (dict_keys (es_attrs G)))))"
    unfolding fold_read_edge_attr by (simp add: edges Let_def)
  have fv1: "first_attributes (vcount ?G1) (vs_attrs ?G1) = Inr (map (\<lambda>(k, col). (k, col ! 0)) va)"
    using fv by simp
  have fe2: "first_attributes (ecount (fst (?G1\<lparr>vs_attrs := ?va'\<rparr>, ?nw)))
               (es_attrs (fst (?G1\<lparr>vs_attrs := ?va'\<rparr>, ?nw))) =
              Inr (map (\<lambda>(k, col). (k, col ! 0)) (es_attrs G))"
    using fe by (simp add: ecount_def)
  show ?thesis
    unfolding read_graphml_def R del Let_def sum.case fv1 kv st2 fe2 ke st3 warnings_append
    by simp
qed

lemma convert_all_isl: "isl (convert_all c col) \<longleftrightarrow> (\<exists>v\<in>set col. isl (c v))"
  by (induction col) (auto split: sum.splits)

lemma convert_all_Inr:
  "\<not> isl (convert_all c col) \<Longrightarrow> projr (convert_all c col) = map (\<lambda>v. projr (c v)) col"
  by (induction col) (auto split: sum.splits)

lemma dict_get_map_values:
  "distinct (dict_keys d) \<Longrightarrow> (k, v) \<in> set d \<Longrightarrow>
   dict_get (map (\<lambda>(k, v). (k, f k v)) d) k = Inr (f k v)"
proof -
  assume d: "distinct (dict_keys d)" and m: "(k, v) \<in> set d"
  have "dict_keys (map (\<lambda>(k, v). (k, f k v)) d) = dict_keys d"
    by (induction d) (auto simp: dict_keys_def)
  with d have "distinct (dict_keys (map (\<lambda>(k, v). (k, f k v)) d))" by simp
  moreover from m have "(k, f k v) \<in> set (map (\<lambda>(k, v). (k, f k v)) d)" by force
  ultimately show ?thesis by (rule dict_get_distinct)
qed

lemma in_warnings:
  "lg = Some l \<Longrightarrow> m \<in> set ms \<Longrightarrow> m \<in> set (the (warnings lg ms))"
  by (simp add: warnings_def)

text \<open>
  C9 (amended): let the file parse to a graph with the node \<open>id\<close> column, at least
  one node and at least one edge. Then the import succeeds, and for every node
  attribute key other than \<open>id\<close> and every edge attribute key: when the key is not a
  value of the enum, or the converter raises on one of its values, the whole column
  is left as it was read, and a warning naming the key is logged if a logger was
  passed to the call; otherwise every value of the column is decoded. Without a logger
  (the default) nothing is logged.
\<close>

theorem import_keeps_failed_keys_raw:
  assumes "Read_GraphML f = Inr G"
    and "''id'' \<in> set (dict_keys (vs_attrs G))"
    and "distinct (dict_keys (vs_attrs G))" and "distinct (dict_keys (es_attrs G))"
    and "0 < vcount G" and "0 < ecount G"
  shows "\<exists>G' lg'. read_graphml B Read_GraphML f lg = (Inr G', lg')
     \<and> (\<forall>(k, col) \<in> set (vs_attrs G). k \<noteq> ''id'' \<longrightarrow>
          (case Node_of k of
             Inl e \<Rightarrow>
               dict_get (vs_attrs G') k = Inr col
               \<and> (\<forall>l. lg = Some l \<longrightarrow> node_warning k \<in> set (the lg'))
           | Inr m \<Rightarrow>
               if \<exists>v\<in>set col. isl (value_converter_by_node_attribute m B v)
               then dict_get (vs_attrs G') k = Inr col
                    \<and> (\<forall>l. lg = Some l \<longrightarrow> node_warning k \<in> set (the lg'))
               else dict_get (vs_attrs G') k =
                      Inr (map (\<lambda>v. projr (value_converter_by_node_attribute m B v)) col)))
     \<and> (\<forall>(k, col) \<in> set (es_attrs G).
          (case Edge_of k of
             Inl e \<Rightarrow>
               dict_get (es_attrs G') k = Inr col
               \<and> (\<forall>l. lg = Some l \<longrightarrow> edge_warning k \<in> set (the lg'))
           | Inr m \<Rightarrow>
               if \<exists>v\<in>set col. isl (value_converter_by_edge_attribute m B v)
               then dict_get (es_attrs G') k = Inr col
                    \<and> (\<forall>l. lg = Some l \<longrightarrow> edge_warning k \<in> set (the lg'))
               else dict_get (es_attrs G') k =
                      Inr (map (\<lambda>v. projr (value_converter_by_edge_attribute m B v)) col)))
     \<and> (lg = None \<longrightarrow> lg' = None)"
proof -
  define va where "va = filter (\<lambda>(k, col). k \<noteq> ''id'') (vs_attrs G)"
  define nmsgs where "nmsgs = map (\<lambda>k. node_warning k)
           (filter (\<lambda>k. isl (node_column B k (the (map_of va k)))) (dict_keys va))"
  define emsgs where "emsgs = map (\<lambda>k. edge_warning k)
             (filter (\<lambda>k. isl (edge_column B k (the (map_of (es_attrs G) k))))
                (dict_keys (es_attrs G)))"
  define G' where "G' = G\<lparr>vs_attrs := map (\<lambda>(k, col). (k, decoded_or_raw (node_column B) k col)) va,
             es_attrs := map (\<lambda>(k, col). (k, decoded_or_raw (edge_column B) k col)) (es_attrs G)\<rparr>"
  define lg' where "lg' = warnings lg (nmsgs @ emsgs)"
  have r: "read_graphml B Read_GraphML f lg = (Inr G', lg')"
    unfolding G'_def lg'_def nmsgs_def emsgs_def va_def
    using assms by (rule read_graphml_ok)
  have dva: "distinct (dict_keys va)"
    unfolding va_def using assms(3) by (rule dict_keys_filter_distinct)
  have nodes: "(if isl (node_column B k col)
           then dict_get (vs_attrs G') k = Inr col
                \<and> (\<forall>l. lg = Some l \<longrightarrow> node_warning k \<in> set (the lg'))
           else dict_get (vs_attrs G') k = Inr (projr (node_column B k col)))"
    if m: "(k, col) \<in> set (vs_attrs G)" and k: "k \<noteq> ''id''" for k col
  proof -
    from m k have mv: "(k, col) \<in> set va" by (simp add: va_def)
    have g: "dict_get (vs_attrs G') k = Inr (decoded_or_raw (node_column B) k col)"
      using dict_get_map_values [OF dva mv] by (simp add: G'_def)
    from dva mv have mo: "map_of va k = Some col" by (simp add: dict_keys_def)
    show ?thesis
    proof (cases "isl (node_column B k col)")
      case True
      with mv mo have "node_warning k \<in> set nmsgs"
        by (force simp: nmsgs_def dict_keys_def)
      then have "\<forall>l. lg = Some l \<longrightarrow> node_warning k \<in> set (the lg')"
        by (simp add: lg'_def in_warnings)
      with True g show ?thesis
        by (auto simp: decoded_or_raw_def split: sum.splits)
    next
      case False
      with g show ?thesis
        by (auto simp: decoded_or_raw_def split: sum.splits)
    qed
  qed
  have edges: "(if isl (edge_column B k col)
           then dict_get (es_attrs G') k = Inr col
                \<and> (\<forall>l. lg = Some l \<longrightarrow> edge_warning k \<in> set (the lg'))
           else dict_get (es_attrs G') k = Inr (projr (edge_column B k col)))"
    if m: "(k, col) \<in> set (es_attrs G)" for k col
  proof -
    have g: "dict_get (es_attrs G') k = Inr (decoded_or_raw (edge_column B) k col)"
      using dict_get_map_values [OF assms(4) m] by (simp add: G'_def)
    from assms(4) m have mo: "map_of (es_attrs G) k = Some col" by (simp add: dict_keys_def)
    show ?thesis
    proof (cases "isl (edge_column B k col)")
      case True
      with m mo have "edge_warning k \<in> set emsgs"
        by (force simp: emsgs_def dict_keys_def)
      then have "\<forall>l. lg = Some l \<longrightarrow> edge_warning k \<in> set (the lg')"
        by (simp add: lg'_def in_warnings)
      with True g show ?thesis
        by (auto simp: decoded_or_raw_def split: sum.splits)
    next
      case False
      with g show ?thesis
        by (auto simp: decoded_or_raw_def split: sum.splits)
    qed
  qed
  have n: "lg = None \<longrightarrow> lg' = None"
    by (simp add: lg'_def warnings_def)
  have nodes': "\<forall>(k, col) \<in> set (vs_attrs G). k \<noteq> ''id'' \<longrightarrow>
          (case Node_of k of
             Inl e \<Rightarrow>
               dict_get (vs_attrs G') k = Inr col
               \<and> (\<forall>l. lg = Some l \<longrightarrow> node_warning k \<in> set (the lg'))
           | Inr m \<Rightarrow>
               if \<exists>v\<in>set col. isl (value_converter_by_node_attribute m B v)
               then dict_get (vs_attrs G') k = Inr col
                    \<and> (\<forall>l. lg = Some l \<longrightarrow> node_warning k \<in> set (the lg'))
               else dict_get (vs_attrs G') k =
                      Inr (map (\<lambda>v. projr (value_converter_by_node_attribute m B v)) col))"
  proof (intro ballI, clarify)
    fix k col assume m: "(k, col) \<in> set (vs_attrs G)" and k: "k \<noteq> ''id''"
    note x = nodes [OF m k]
    show "case Node_of k of
             Inl e \<Rightarrow>
               dict_get (vs_attrs G') k = Inr col
               \<and> (\<forall>l. lg = Some l \<longrightarrow> node_warning k \<in> set (the lg'))
           | Inr m \<Rightarrow>
               if \<exists>v\<in>set col. isl (value_converter_by_node_attribute m B v)
               then dict_get (vs_attrs G') k = Inr col
                    \<and> (\<forall>l. lg = Some l \<longrightarrow> node_warning k \<in> set (the lg'))
               else dict_get (vs_attrs G') k =
                      Inr (map (\<lambda>v. projr (value_converter_by_node_attribute m B v)) col)"
    proof (cases "Node_of k")
      case (Inl e)
      with x show ?thesis by (simp add: node_column_def)
    next
      case (Inr mm)
      with x show ?thesis
        by (simp add: node_column_def convert_all_isl convert_all_Inr)
    qed
  qed
  have edges': "\<forall>(k, col) \<in> set (es_attrs G).
          (case Edge_of k of
             Inl e \<Rightarrow>
               dict_get (es_attrs G') k = Inr col
               \<and> (\<forall>l. lg = Some l \<longrightarrow> edge_warning k \<in> set (the lg'))
           | Inr m \<Rightarrow>
               if \<exists>v\<in>set col. isl (value_converter_by_edge_attribute m B v)
               then dict_get (es_attrs G') k = Inr col
                    \<and> (\<forall>l. lg = Some l \<longrightarrow> edge_warning k \<in> set (the lg'))
               else dict_get (es_attrs G') k =
                      Inr (map (\<lambda>v. projr (value_converter_by_edge_attribute m B v)) col))"
  proof (intro ballI, clarify)
    fix k col assume m: "(k, col) \<in> set (es_attrs G)"
    note x = edges [OF m]
    show "case Edge_of k of
             Inl e \<Rightarrow>
               dict_get (es_attrs G') k = Inr col
               \<and> (\<forall>l. lg = Some l \<longrightarrow> edge_warning k \<in> set (the lg'))
           | Inr m \<Rightarrow>
               if \<exists>v\<in>set col. isl (value_converter_by_edge_attribute m B v)
               then dict_get (es_attrs G') k = Inr col
                    \<and> (\<forall>l. lg = Some l \<longrightarrow> edge_warning k \<in> set (the lg'))
               else dict_get (es_attrs G') k =
                      Inr (map (\<lambda>v. projr (value_converter_by_edge_attribute m B v)) col)"
    proof (cases "Edge_of k")
      case (Inl e)
      with x show ?thesis by (simp add: edge_column_def)
    next
      case (Inr mm)
      with x show ?thesis
        by (simp add: edge_column_def convert_all_isl convert_all_Inr)
    qed
  qed
  from r nodes' edges' n show ?thesis by blast
qed

theorem import_keeps_failed_keys_raw_witness:
  "\<exists>G' lg'. read_graphml example_runtime (\<lambda>f. Inr example_raw_graph) ''g.graphml'' (Some [])
               = (Inr G', lg')
     \<and> dict_get (vs_attrs G') ''zz'' = Inr [VStr ''x'', VStr ''y'']
     \<and> node_warning ''zz'' \<in> set (the lg')
     \<and> dict_get (vs_attrs G') ''ii'' = Inr [VInt 0, VInt 1]
     \<and> dict_get (es_attrs G') ''b_st'' = Inr [VStr '''']
     \<and> edge_warning ''b_st'' \<in> set (the lg')"
proof -
  let ?R = "(\<lambda>f. Inr example_raw_graph) :: string \<Rightarrow> py_error + graph"
  have h1: "?R ''g.graphml'' = Inr example_raw_graph" by simp
  have h2: "''id'' \<in> set (dict_keys (vs_attrs example_raw_graph))" by code_simp
  have h3: "distinct (dict_keys (vs_attrs example_raw_graph))" by code_simp
  have h4: "distinct (dict_keys (es_attrs example_raw_graph))" by code_simp
  have h5: "0 < vcount example_raw_graph" by code_simp
  have h6: "0 < ecount example_raw_graph" by code_simp
  have zz: "(''zz'', [VStr ''x'', VStr ''y'']) \<in> set (vs_attrs example_raw_graph)"
    and ii: "(''ii'', [VStr ''0'', VStr ''1'']) \<in> set (vs_attrs example_raw_graph)"
    and st: "(''b_st'', [VStr '''']) \<in> set (es_attrs example_raw_graph)"
    by (simp_all add: example_raw_graph_def)
  have nz: "Node_of ''zz'' = Inl ValueError" by code_simp
  have ni: "Node_of ''ii'' = Inr Node_id_ig" by code_simp
  have es: "Edge_of ''b_st'' = Inr Edge_is_stairs" by code_simp
  have t0: "to_int example_runtime (VStr ''0'') = Inr (VInt 0)" by code_simp
  have t1: "to_int example_runtime (VStr ''1'') = Inr (VInt 1)" by code_simp
  have cs: "\<exists>v\<in>set [VStr '''']. isl (to_bool example_runtime v)"
    by code_simp
  from import_keeps_failed_keys_raw [of ?R "''g.graphml''" example_raw_graph example_runtime "Some []",
      OF h1 h2 h3 h4 h5 h6]
  show ?thesis
  proof (elim exE conjE)
    fix G' lg'
    assume r: "read_graphml example_runtime ?R ''g.graphml'' (Some []) = (Inr G', lg')"
    assume nodes: "\<forall>(k, col) \<in> set (vs_attrs example_raw_graph). k \<noteq> ''id'' \<longrightarrow>
          (case Node_of k of
             Inl e \<Rightarrow>
               dict_get (vs_attrs G') k = Inr col
               \<and> (\<forall>l. Some [] = Some l \<longrightarrow> node_warning k \<in> set (the lg'))
           | Inr m \<Rightarrow>
               if \<exists>v\<in>set col. isl (value_converter_by_node_attribute m example_runtime v)
               then dict_get (vs_attrs G') k = Inr col
                    \<and> (\<forall>l. Some [] = Some l \<longrightarrow> node_warning k \<in> set (the lg'))
               else dict_get (vs_attrs G') k =
                      Inr (map (\<lambda>v. projr (value_converter_by_node_attribute m example_runtime v)) col))"
    assume edges: "\<forall>(k, col) \<in> set (es_attrs example_raw_graph).
          (case Edge_of k of
             Inl e \<Rightarrow>
               dict_get (es_attrs G') k = Inr col
               \<and> (\<forall>l. Some [] = Some l \<longrightarrow> edge_warning k \<in> set (the lg'))
           | Inr m \<Rightarrow>
               if \<exists>v\<in>set col. isl (value_converter_by_edge_attribute m example_runtime v)
               then dict_get (es_attrs G') k = Inr col
                    \<and> (\<forall>l. Some [] = Some l \<longrightarrow> edge_warning k \<in> set (the lg'))
               else dict_get (es_attrs G') k =
                      Inr (map (\<lambda>v. projr (value_converter_by_edge_attribute m example_runtime v)) col))"
    from bspec [OF nodes zz] have a: "dict_get (vs_attrs G') ''zz'' = Inr [VStr ''x'', VStr ''y'']
        \<and> node_warning ''zz'' \<in> set (the lg')"
      by (simp add: nz)
    from bspec [OF nodes ii] have b: "dict_get (vs_attrs G') ''ii'' = Inr [VInt 0, VInt 1]"
      by (simp add: ni t0 t1)
    from bspec [OF edges st] cs have c: "dict_get (es_attrs G') ''b_st'' = Inr [VStr '''']
        \<and> edge_warning ''b_st'' \<in> set (the lg')"
      by (simp add: es)
    from r a b c show ?thesis by blast
  qed
qed

text \<open>
  C9 as stated fails: called without a logger, the import of the example leaves the
  unknown key \<open>zz\<close> and the malformed column \<open>b_st\<close> raw and logs nothing; and
  for a graph with nodes and no edges the import as a whole raises, after the node
  keys were handled.
\<close>

theorem import_logs_nothing_counterexample:
  "read_graphml example_runtime (\<lambda>f. Inr example_raw_graph) ''g.graphml'' None =
     (Inr \<lparr>vcount = 2, edge_list = [(0, 1)],
           vs_attrs =
             [(''ii'', [VInt 0, VInt 1]), (''zz'', [VStr ''x'', VStr ''y'']),
              (''b_tw'', [VBool True, VBool False])],
           es_attrs =
             [(''ii'', [VInt 0]), (''b_st'', [VStr '''']), (''l'', [VFloat 8]),
              (''n'', [VDict [(VInt 50, VFloat 8)]])]\<rparr>,
      None)
   \<and> fst (read_graphml example_runtime
           (\<lambda>f. Inr (example_raw_graph\<lparr>edge_list := [], es_attrs := []\<rparr>)) ''g.graphml'' None)
       = Inl IndexError"
  by code_simp

lemma ecount_vs_attrs [simp]: "ecount (G\<lparr>vs_attrs := a\<rparr>) = ecount G"
  by (simp add: ecount_def)

lemma node_loop_frame:
  "ecount (fst (fold (read_node_attr B) ks (G, lg))) = ecount G"
  "es_attrs (fst (fold (read_node_attr B) ks (G, lg))) = es_attrs G"
  "vcount (fst (fold (read_node_attr B) ks (G, lg))) = vcount G"
  "edge_list (fst (fold (read_node_attr B) ks (G, lg))) = edge_list G"
  by (simp_all add: fold_read_node_attr Let_def ecount_def)

lemma read_graphml_unfold:
  "read_graphml B Read_GraphML f lg =
     (case Read_GraphML f of
        Inl e \<Rightarrow> (Inl e, lg)
      | Inr G \<Rightarrow>
          (case dict_del (vs_attrs G) ''id'' of
             Inl e \<Rightarrow> (Inl e, lg)
           | Inr va \<Rightarrow>
               (case first_attributes (vcount G) va of
                  Inl e \<Rightarrow> (Inl e, lg)
                | Inr v0 \<Rightarrow>
                    (case first_attributes (ecount G) (es_attrs G) of
                       Inl e \<Rightarrow>
                         (Inl e, snd (fold (read_node_attr B) (dict_keys v0) (G\<lparr>vs_attrs := va\<rparr>, lg)))
                     | Inr e0 \<Rightarrow>
                         (Inr (fst (fold (read_edge_attr B) (dict_keys e0)
                                 (fold (read_node_attr B) (dict_keys v0) (G\<lparr>vs_attrs := va\<rparr>, lg)))),
                          snd (fold (read_edge_attr B) (dict_keys e0)
                                 (fold (read_node_attr B) (dict_keys v0) (G\<lparr>vs_attrs := va\<rparr>, lg))))))))"
  unfolding read_graphml_def Let_def
  by (auto simp add: node_loop_frame split: sum.splits)

lemma read_graphml_empty:
  assumes "Read_GraphML f = Inr G" "vcount G = 0 \<or> ecount G = 0"
  shows "fst (read_graphml B Read_GraphML f lg) =
           Inl (if ''id'' \<in> set (dict_keys (vs_attrs G)) then IndexError else KeyError)"
  using assms
  by (auto simp add: read_graphml_unfold dict_del_def first_attributes_def split: sum.splits)

lemma read_graphml_success:
  assumes "fst (read_graphml B Read_GraphML f lg) = Inr G'"
  shows "\<exists>G va v0 e0. Read_GraphML f = Inr G \<and> dict_del (vs_attrs G) ''id'' = Inr va
         \<and> first_attributes (vcount G) va = Inr v0
         \<and> first_attributes (ecount G) (es_attrs G) = Inr e0
         \<and> 0 < vcount G \<and> 0 < ecount G
         \<and> G' = fst (fold (read_edge_attr B) (dict_keys e0)
                        (fold (read_node_attr B) (dict_keys v0) (G\<lparr>vs_attrs := va\<rparr>, lg)))"
proof -
  from assms obtain G where R: "Read_GraphML f = Inr G"
    by (cases "Read_GraphML f") (simp_all add: read_graphml_unfold)
  from assms R obtain va where d: "dict_del (vs_attrs G) ''id'' = Inr va"
    by (cases "dict_del (vs_attrs G) ''id''") (simp_all add: read_graphml_unfold)
  from assms R d obtain v0 where fv: "first_attributes (vcount G) va = Inr v0"
    by (cases "first_attributes (vcount G) va") (simp_all add: read_graphml_unfold)
  from assms R d fv obtain e0 where fe: "first_attributes (ecount G) (es_attrs G) = Inr e0"
    by (cases "first_attributes (ecount G) (es_attrs G)") (simp_all add: read_graphml_unfold)
  from fv fe have pos: "0 < vcount G" "0 < ecount G"
    by (simp_all add: first_attributes_def split: if_splits)
  from assms R d fv fe have "G' = fst (fold (read_edge_attr B) (dict_keys e0)
                        (fold (read_node_attr B) (dict_keys v0) (G\<lparr>vs_attrs := va\<rparr>, lg)))"
    by (simp add: read_graphml_unfold)
  with R d fv fe pos show ?thesis by blast
qed

text \<open>
  C10: the keys that the import converts are those of the attribute dicts of the
  first node and of the first edge, and both probes must succeed: a file that parses
  to a graph with no nodes or no edges makes the import raise (\<open>IndexError\<close> from
  the probe, or \<open>KeyError\<close> before it when the node \<open>id\<close> column is missing), and
  a graph is returned only when a first node and a first edge exist.
\<close>

theorem import_probes_first_elements:
  "(Read_GraphML f = Inr G \<and> (vcount G = 0 \<or> ecount G = 0) \<longrightarrow>
      fst (read_graphml B Read_GraphML f lg) =
        Inl (if ''id'' \<in> set (dict_keys (vs_attrs G)) then IndexError else KeyError))
   \<and> (fst (read_graphml B Read_GraphML f lg) = Inr G' \<longrightarrow>
        (\<exists>G va v0 e0. Read_GraphML f = Inr G \<and> dict_del (vs_attrs G) ''id'' = Inr va
           \<and> first_attributes (vcount G) va = Inr v0
           \<and> first_attributes (ecount G) (es_attrs G) = Inr e0
           \<and> 0 < vcount G \<and> 0 < ecount G
           \<and> G' = fst (fold (read_edge_attr B) (dict_keys e0)
                          (fold (read_node_attr B) (dict_keys v0) (G\<lparr>vs_attrs := va\<rparr>, lg)))))"
proof (intro conjI impI)
  assume "Read_GraphML f = Inr G \<and> (vcount G = 0 \<or> ecount G = 0)"
  then show "fst (read_graphml B Read_GraphML f lg) =
        Inl (if ''id'' \<in> set (dict_keys (vs_attrs G)) then IndexError else KeyError)"
    using read_graphml_empty [of Read_GraphML f G B lg] by simp
next
  assume "fst (read_graphml B Read_GraphML f lg) = Inr G'"
  then show "\<exists>G va v0 e0. Read_GraphML f = Inr G \<and> dict_del (vs_attrs G) ''id'' = Inr va
           \<and> first_attributes (vcount G) va = Inr v0
           \<and> first_attributes (ecount G) (es_attrs G) = Inr e0
           \<and> 0 < vcount G \<and> 0 < ecount G
           \<and> G' = fst (fold (read_edge_attr B) (dict_keys e0)
                          (fold (read_node_attr B) (dict_keys v0) (G\<lparr>vs_attrs := va\<rparr>, lg)))"
    by (rule read_graphml_success)
qed

theorem import_probes_first_elements_witness:
  "fst (read_graphml example_runtime
          (\<lambda>f. Inr (example_raw_graph\<lparr>edge_list := [], es_attrs := []\<rparr>)) ''g.graphml'' None)
     = Inl IndexError
   \<and> fst (read_graphml example_runtime
          (\<lambda>f. Inr \<lparr>vcount = 0, edge_list = [], vs_attrs = [], es_attrs = []\<rparr>) ''g.graphml'' None)
     = Inl KeyError
   \<and> (\<exists>G'. fst (read_graphml example_runtime (\<lambda>f. Inr example_raw_graph) ''g.graphml'' None)
            = Inr G'
          \<and> 0 < vcount example_raw_graph \<and> 0 < ecount example_raw_graph)"
proof -
  let ?G1 = "example_raw_graph\<lparr>edge_list := [], es_attrs := []\<rparr>"
  let ?G2 = "\<lparr>vcount = 0, edge_list = [], vs_attrs = [], es_attrs = []\<rparr> :: graph"
  let ?R1 = "(\<lambda>f. Inr ?G1) :: string \<Rightarrow> py_error + graph"
  let ?R2 = "(\<lambda>f. Inr ?G2) :: string \<Rightarrow> py_error + graph"
  let ?R3 = "(\<lambda>f. Inr example_raw_graph) :: string \<Rightarrow> py_error + graph"
  have a1: "?R1 ''g.graphml'' = Inr ?G1 \<and> (vcount ?G1 = 0 \<or> ecount ?G1 = 0)"
    by (simp add: ecount_def)
  have i1: "''id'' \<in> set (dict_keys (vs_attrs ?G1))" by code_simp
  have a2: "?R2 ''g.graphml'' = Inr ?G2 \<and> (vcount ?G2 = 0 \<or> ecount ?G2 = 0)"
    by simp
  have i2: "''id'' \<notin> set (dict_keys (vs_attrs ?G2))" by (simp add: dict_keys_def)
  from import_probes_first_elements [of ?R1 "''g.graphml''" ?G1 example_runtime None] a1
  have "fst (read_graphml example_runtime ?R1 ''g.graphml'' None) =
        Inl (if ''id'' \<in> set (dict_keys (vs_attrs ?G1)) then IndexError else KeyError)"
    by blast
  with i1 have r1: "fst (read_graphml example_runtime ?R1 ''g.graphml'' None) = Inl IndexError"
    by (simp only: if_True)
  from import_probes_first_elements [of ?R2 "''g.graphml''" ?G2 example_runtime None] a2
  have "fst (read_graphml example_runtime ?R2 ''g.graphml'' None) =
        Inl (if ''id'' \<in> set (dict_keys (vs_attrs ?G2)) then IndexError else KeyError)"
    by blast
  with i2 have r2: "fst (read_graphml example_runtime ?R2 ''g.graphml'' None) = Inl KeyError"
    by (simp only: if_False)
  have "\<not> isl (fst (read_graphml example_runtime ?R3 ''g.graphml'' None))"
    by code_simp
  then obtain G' where s: "fst (read_graphml example_runtime ?R3 ''g.graphml'' None) = Inr G'"
    by (cases "fst (read_graphml example_runtime ?R3 ''g.graphml'' None)") simp_all
  with import_probes_first_elements [of ?R3 "''g.graphml''" _ example_runtime None G']
  obtain G where "?R3 ''g.graphml'' = Inr G" "0 < vcount G" "0 < ecount G"
    by blast
  then have "0 < vcount example_raw_graph \<and> 0 < ecount example_raw_graph" by simp
  with r1 r2 s show ?thesis by blast
qed






























end
